theory Spec2Isabelle
  imports Main "HOL-Library.Word"
begin

unbundle bit_operations_syntax

chapter \<open>A paged virtual-memory simulator: TLB, page-table walker, driver, allocator\<close>

text \<open>
  The development embeds the C++ sources of the simulator: the two translation
  look-aside buffers (the slot array of \<^verbatim>\<open>mmu.cc\<close> and the list with an index of
  \<^verbatim>\<open>tlb.cpp\<close>), the AArch64 four-level walker and its driver, and the two
  physical-page allocators (hole list and bitmap).  Unsigned 64-bit quantities are
  \<^typ>\<open>64 word\<close>; every throw and every access outside an object is a value of
  \<open>error\<close>.
\<close>

type_synonym u64 = "64 word"

datatype error =
    OutOfBounds            \<comment> \<open>access outside a vector, list or table: undefined behaviour\<close>
  | RuntimeError string    \<comment> \<open>\<^verbatim>\<open>throw std::runtime_error(msg)\<close>\<close>

text \<open>Sequencing of fallible steps: the first error ends the run.\<close>

definition and_then :: "error + 'a \<Rightarrow> ('a \<Rightarrow> error + 'b) \<Rightarrow> error + 'b" where
  "and_then m f = (case m of Inl e \<Rightarrow> Inl e | Inr x \<Rightarrow> f x)"

section \<open>The slot-array TLB of \<^verbatim>\<open>mmu.cc\<close>\<close>

text \<open>
  \<^verbatim>\<open>struct TLBEntry { vPage; pPage; asid; valid; }\<close>.  The default constructor
  gives an invalid all-zero entry.  (The field \<^verbatim>\<open>valid\<close> is \<open>tlb_valid\<close> here; the
  plain name is used for the bit of a page-table entry.)
\<close>

record TLBEntry =
  vPage :: u64
  pPage :: u64
  asid :: u64
  tlb_valid :: bool

definition TLBEntry0 :: TLBEntry where
  "TLBEntry0 = \<lparr>vPage = 0, pPage = 0, asid = 0, tlb_valid = False\<rparr>"

definition mkTLBEntry :: "u64 \<Rightarrow> u64 \<Rightarrow> u64 \<Rightarrow> TLBEntry" where
  "mkTLBEntry vp pp as = \<lparr>vPage = vp, pPage = pp, asid = as, tlb_valid = True\<rparr>"

text \<open>
  The file-scope statics \<^verbatim>\<open>tlbEntries\<close>, \<^verbatim>\<open>lruOrder\<close>, \<^verbatim>\<open>lruMap\<close> and
  \<^verbatim>\<open>tlbInitialized\<close>: one copy for the whole program, whatever the number of
  \<^verbatim>\<open>TLB\<close> objects.  \<^verbatim>\<open>lruMap\<close> maps a slot number to the iterator of the list
  node holding that slot number; the iterator stored under key \<open>i\<close> is always the one
  returned by \<^verbatim>\<open>lruOrder.begin()\<close> right after \<^verbatim>\<open>push_front(i)\<close>, hence the
  frontmost node with value \<open>i\<close>, so the map is represented by its key set and
  \<^verbatim>\<open>lruOrder.erase(it->second)\<close> by \<^term>\<open>remove1\<close>.
\<close>

record tlb_globals =
  tlbEntries :: "TLBEntry list"
  lruOrder :: "nat list"
  lruMap :: "nat set"
  tlbInitialized :: bool

definition globals0 :: tlb_globals where
  "globals0 = \<lparr>tlbEntries = [], lruOrder = [], lruMap = {}, tlbInitialized = False\<rparr>"

text \<open>The members of one \<^verbatim>\<open>TLB\<close> object: its capacity and its statistics.\<close>

record TLB =
  nEntries :: nat
  nLookups :: int
  nHits :: int
  nEvictions :: int
  nFlush :: int
  nFlushEvictions :: int

definition newTLB :: "nat \<Rightarrow> TLB" where
  "newTLB n = \<lparr>nEntries = n, nLookups = 0, nHits = 0, nEvictions = 0, nFlush = 0,
     nFlushEvictions = 0\<rparr>"

text \<open>\<^verbatim>\<open>std::vector::resize(n)\<close>: truncate, or pad with default entries.\<close>

definition resize :: "nat \<Rightarrow> TLBEntry list \<Rightarrow> TLBEntry list" where
  "resize n es = take n es @ replicate (n - length es) TLBEntry0"

text \<open>
  The scan \<^verbatim>\<open>for (i = 0; i < nEntries; ++i) if (P(tlbEntries[i])) ...\<close>, started at
  slot \<open>i\<close> with \<open>k\<close> slots left: the first slot satisfying \<open>P\<close>, or an access outside
  the vector when the vector is shorter than the capacity of this object.
\<close>

fun scan :: "(TLBEntry \<Rightarrow> bool) \<Rightarrow> TLBEntry list \<Rightarrow> nat \<Rightarrow> nat \<Rightarrow> error + nat option" where
  "scan P es i 0 = Inr None"
| "scan P es i (Suc k) =
     (if length es \<le> i then Inl OutOfBounds
      else if P (es ! i) then Inr (Some i)
      else scan P es (Suc i) k)"

text \<open>
  \<^verbatim>\<open>TLB::lookup(vPage, pPage)\<close>.  The address-space id the source reads from the
  ambient \<^verbatim>\<open>currentASID\<close> is the argument \<open>as\<close>.  The result is the physical page
  on a hit.
\<close>

definition TLB_lookup ::
  "TLB \<Rightarrow> tlb_globals \<Rightarrow> u64 \<Rightarrow> u64 \<Rightarrow> error + (u64 option \<times> TLB \<times> tlb_globals)" where
  "TLB_lookup t g as vp =
     (let t1 = t\<lparr>nLookups := nLookups t + 1\<rparr> in
      if \<not> tlbInitialized g then
        Inr (None, t1, g\<lparr>tlbEntries := resize (nEntries t) (tlbEntries g),
                           tlbInitialized := True\<rparr>)
      else
        case scan (\<lambda>e. tlb_valid e \<and> vPage e = vp \<and> asid e = as) (tlbEntries g) 0 (nEntries t) of
          Inl e \<Rightarrow> Inl e
        | Inr None \<Rightarrow> Inr (None, t1, g)
        | Inr (Some i) \<Rightarrow>
            Inr (Some (pPage (tlbEntries g ! i)),
                 t1\<lparr>nHits := nHits t1 + 1\<rparr>,
                 g\<lparr>lruOrder := i # (if i \<in> lruMap g then remove1 i (lruOrder g) else lruOrder g),
                   lruMap := insert i (lruMap g)\<rparr>))"

text \<open>\<^verbatim>\<open>TLB::add(vPage, pPage)\<close>, with the ambient address-space id as \<open>as\<close>.\<close>

definition TLB_add ::
  "TLB \<Rightarrow> tlb_globals \<Rightarrow> u64 \<Rightarrow> u64 \<Rightarrow> u64 \<Rightarrow> error + (TLB \<times> tlb_globals)" where
  "TLB_add t g as vp pp =
     (let g1 = (if \<not> tlbInitialized g
                then g\<lparr>tlbEntries := resize (nEntries t) (tlbEntries g), tlbInitialized := True\<rparr>
                else g) in
      case scan (\<lambda>e. \<not> tlb_valid e) (tlbEntries g1) 0 (nEntries t) of
        Inl e \<Rightarrow> Inl e
      | Inr found \<Rightarrow>
          (let (replaceIndex, t2, g2) =
             (case found of
                Some i \<Rightarrow> (i, t, g1)
              | None \<Rightarrow>
                  (if lruOrder g1 \<noteq> []
                   then (last (lruOrder g1), t\<lparr>nEvictions := nEvictions t + 1\<rparr>,
                         g1\<lparr>lruOrder := butlast (lruOrder g1),
                            lruMap := lruMap g1 - {last (lruOrder g1)}\<rparr>)
                   else (0, t\<lparr>nEvictions := nEvictions t + 1\<rparr>, g1)))
           in if length (tlbEntries g2) \<le> replaceIndex then Inl OutOfBounds
              else Inr (t2, g2\<lparr>tlbEntries := (tlbEntries g2)[replaceIndex := mkTLBEntry vp pp as],
                               lruOrder := replaceIndex # lruOrder g2,
                               lruMap := insert replaceIndex (lruMap g2)\<rparr>)))"

text \<open>
  \<^verbatim>\<open>TLB::flush()\<close>: the two loops over \<open>i < nEntries\<close> count and then invalidate
  the slots; both read outside the vector when it is shorter than \<open>nEntries\<close>.
\<close>

definition TLB_flush :: "TLB \<Rightarrow> tlb_globals \<Rightarrow> error + (TLB \<times> tlb_globals)" where
  "TLB_flush t g =
     (let t1 = t\<lparr>nFlush := nFlush t + 1\<rparr> in
      if \<not> tlbInitialized g then Inr (t1, g)
      else if length (tlbEntries g) < nEntries t then Inl OutOfBounds
      else Inr (t1\<lparr>nFlushEvictions := nFlushEvictions t1
                        + int (length (filter tlb_valid (take (nEntries t) (tlbEntries g))))\<rparr>,
                g\<lparr>tlbEntries := map (\<lambda>e. e\<lparr>tlb_valid := False\<rparr>) (take (nEntries t) (tlbEntries g))
                                   @ drop (nEntries t) (tlbEntries g),
                  lruOrder := [], lruMap := {}\<rparr>))"

text \<open>\<^verbatim>\<open>TLB::clear()\<close>: a flush, then every counter back to zero.\<close>

definition TLB_clear :: "TLB \<Rightarrow> tlb_globals \<Rightarrow> error + (TLB \<times> tlb_globals)" where
  "TLB_clear t g =
     (case TLB_flush t g of
        Inl e \<Rightarrow> Inl e
      | Inr (t1, g1) \<Rightarrow>
          Inr (t1\<lparr>nLookups := 0, nHits := 0, nEvictions := 0, nFlush := 0,
                   nFlushEvictions := 0\<rparr>, g1))"

text \<open>\<^verbatim>\<open>TLB::getStatistics\<close>.\<close>

definition getStatistics :: "TLB \<Rightarrow> int \<times> int \<times> int \<times> int \<times> int" where
  "getStatistics t = (nLookups t, nHits t, nEvictions t, nFlush t, nFlushEvictions t)"

section \<open>The list TLB of \<^verbatim>\<open>tlb.h\<close>\<close>

text \<open>
  \<^verbatim>\<open>struct TLBEntry { virtualAddress; physicalAddress; asid; }\<close> of \<^verbatim>\<open>tlb.h\<close>
  (the field \<^verbatim>\<open>asid\<close> is \<open>line_asid\<close> here).
\<close>

record TLBLine =
  virtualAddress :: u64
  physicalAddress :: u64
  line_asid :: u64

text \<open>
  The members of the class: the capacity, the \<^verbatim>\<open>std::list\<close> of entries with the
  most recently used entry in front, and the \<^verbatim>\<open>unordered_map\<close> from a virtual
  address to the iterator of its list node.  An iterator of a \<^verbatim>\<open>std::list\<close> names
  a node and stays valid while the node lives, so every node carries a number of its
  own, taken from the counter \<open>fresh\<close> when the node is created, and the map holds
  node numbers.  To go through an iterator whose node is gone is undefined
  behaviour.
\<close>

record ListTLB =
  numEntries :: nat
  entries :: "(nat \<times> TLBLine) list"
  cache :: "u64 \<Rightarrow> nat option"
  fresh :: nat

definition newListTLB :: "nat \<Rightarrow> ListTLB" where
  "newListTLB n = \<lparr>numEntries = n, entries = [], cache = Map.empty, fresh = 0\<rparr>"

text \<open>The node an iterator names, and the list without it (\<^verbatim>\<open>entries.erase(it)\<close>).\<close>

definition nodeOf :: "nat \<Rightarrow> (nat \<times> TLBLine) list \<Rightarrow> error + TLBLine" where
  "nodeOf n es = (case map_of es n of None \<Rightarrow> Inl OutOfBounds | Some l \<Rightarrow> Inr l)"

definition eraseNode :: "nat \<Rightarrow> (nat \<times> TLBLine) list \<Rightarrow> (nat \<times> TLBLine) list" where
  "eraseNode n es = filter (\<lambda>x. fst x \<noteq> n) es"

text \<open>\<^verbatim>\<open>TLB::addEntry(virtualAddress, physicalAddress, asid)\<close>.\<close>

definition addEntry :: "ListTLB \<Rightarrow> u64 \<Rightarrow> u64 \<Rightarrow> u64 \<Rightarrow> error + ListTLB" where
  "addEntry t va pa as =
     and_then
       (case cache t va of
          None \<Rightarrow> Inr t
        | Some n \<Rightarrow> and_then (nodeOf n (entries t)) (\<lambda>l.
            Inr (t\<lparr>entries := eraseNode n (entries t), cache := (cache t)(va := None)\<rparr>)))
       (\<lambda>t1.
     and_then
       (if length (entries t1) = numEntries t1 then
          (if entries t1 = [] then Inl OutOfBounds
           else Inr (t1\<lparr>cache := (cache t1)(virtualAddress (snd (last (entries t1))) := None),
                        entries := butlast (entries t1)\<rparr>))
        else Inr t1)
       (\<lambda>t2.
          Inr (t2\<lparr>entries := (fresh t2, \<lparr>virtualAddress = va, physicalAddress = pa,
                                           line_asid = as\<rparr>) # entries t2,
                   cache := (cache t2)(va \<mapsto> fresh t2),
                   fresh := Suc (fresh t2)\<rparr>)))"

text \<open>
  \<^verbatim>\<open>TLB::lookup(virtualAddress, physicalAddress, asid)\<close>: the physical address on a
  hit, and the entry spliced to the front.
\<close>

definition lookup :: "ListTLB \<Rightarrow> u64 \<Rightarrow> u64 \<Rightarrow> error + (u64 option \<times> ListTLB)" where
  "lookup t va as =
     (case cache t va of
        None \<Rightarrow> Inr (None, t)
      | Some n \<Rightarrow> and_then (nodeOf n (entries t)) (\<lambda>l.
          if line_asid l = as
          then Inr (Some (physicalAddress l), t\<lparr>entries := (n, l) # eraseNode n (entries t)\<rparr>)
          else Inr (None, t)))"

definition flush :: "ListTLB \<Rightarrow> ListTLB" where
  "flush t = t\<lparr>entries := [], cache := Map.empty\<rparr>"

text \<open>
  The loop of \<^verbatim>\<open>TLB::flushASID\<close> over the nodes: a node of the address space is
  erased, and so is the map entry under its virtual address.
\<close>

fun flushNodes ::
  "u64 \<Rightarrow> (nat \<times> TLBLine) list \<Rightarrow> (u64 \<Rightarrow> nat option)
     \<Rightarrow> (nat \<times> TLBLine) list \<times> (u64 \<Rightarrow> nat option)" where
  "flushNodes as [] c = ([], c)"
| "flushNodes as (x # xs) c =
     (if line_asid (snd x) = as then flushNodes as xs (c(virtualAddress (snd x) := None))
      else case flushNodes as xs c of (ys, c') \<Rightarrow> (x # ys, c'))"

definition flushASID :: "ListTLB \<Rightarrow> u64 \<Rightarrow> ListTLB" where
  "flushASID t as =
     (case flushNodes as (entries t) (cache t) of (ys, c') \<Rightarrow> t\<lparr>entries := ys, cache := c'\<rparr>)"

text \<open>Sequences of operations on one list TLB; a lookup keeps the state it leaves.\<close>

datatype tlb_op =
    Add u64 u64 u64        \<comment> \<open>address space, virtual address, physical address\<close>
  | Lookup u64 u64         \<comment> \<open>address space, virtual address\<close>
  | Flush
  | FlushASID u64

fun tlb_step :: "ListTLB \<Rightarrow> tlb_op \<Rightarrow> error + ListTLB" where
  "tlb_step t (Add as va pa) = addEntry t va pa as"
| "tlb_step t (Lookup as va) = and_then (lookup t va as) (\<lambda>(r, t'). Inr t')"
| "tlb_step t Flush = Inr (flush t)"
| "tlb_step t (FlushASID as) = Inr (flushASID t as)"

fun tlb_run :: "ListTLB \<Rightarrow> tlb_op list \<Rightarrow> error + ListTLB" where
  "tlb_run t [] = Inr t"
| "tlb_run t (x # xs) = and_then (tlb_step t x) (\<lambda>t'. tlb_run t' xs)"

text \<open>
  The state of a list TLB is consistent when no two nodes share a number or a virtual
  address, the map sends exactly the virtual addresses of the nodes to their node
  numbers, the counter is beyond every node number, and the list is within the
  capacity.
\<close>

definition tlb_inv :: "ListTLB \<Rightarrow> bool" where
  "tlb_inv t \<longleftrightarrow>
     distinct (map fst (entries t))
     \<and> distinct (map (\<lambda>x. virtualAddress (snd x)) (entries t))
     \<and> (\<forall>va n. cache t va = Some n
           \<longleftrightarrow> (\<exists>l. (n, l) \<in> set (entries t) \<and> virtualAddress l = va))
     \<and> (\<forall>x \<in> set (entries t). fst x < fresh t)
     \<and> length (entries t) \<le> numEntries t"

section \<open>The hole-list allocator (\<^verbatim>\<open>pagetables-base-2024/os/physmemmanager.cc\<close>)\<close>

text \<open>\<^verbatim>\<open>physMemBase\<close>: the simulated RAM starts at 16 GiB.\<close>

definition physMemBase :: u64 where
  "physMemBase = 16 * 1024 * 1024 * 1024"

record Hole =
  startPage :: u64
  count :: u64

record PhysMemManager =
  baseAddress :: u64
  pageSize :: u64
  memorySize :: u64
  nPages :: u64
  nAllocatedPages :: u64
  maxAllocatedPages :: u64
  holes :: "Hole list"

text \<open>
  The constructor.  The member initialisers divide by the page size before the body
  runs; the body refuses more than 2 GiB.  \<^verbatim>\<open>mmap\<close> with \<^verbatim>\<open>MAP_FIXED\<close> returns
  the requested address \<^verbatim>\<open>physMemBase\<close> when it succeeds, which is taken for
  granted here.
\<close>

definition newPhysMemManager :: "u64 \<Rightarrow> u64 \<Rightarrow> error + PhysMemManager" where
  "newPhysMemManager ps ms =
     (if ps = 0 then Inl (RuntimeError ''division by zero'')
      else if 2 * 1024 * 1024 * 1024 < ms
      then Inl (RuntimeError ''automatic protection: attempted to allocate more than 2 GiB of memory.'')
      else Inr \<lparr>baseAddress = physMemBase, pageSize = ps, memorySize = ms,
                nPages = ms div ps, nAllocatedPages = 0, maxAllocatedPages = 0,
                holes = [\<lparr>startPage = 0, count = ms div ps\<rparr>]\<rparr>)"

text \<open>\<^verbatim>\<open>findFit\<close>: the position of the first hole of at least \<open>c\<close> pages.\<close>

fun findFit :: "Hole list \<Rightarrow> u64 \<Rightarrow> nat option" where
  "findFit [] c = None"
| "findFit (h # hs) c = (if c \<le> count h then Some 0 else map_option Suc (findFit hs c))"

text \<open>
  \<^verbatim>\<open>splitHole(it, startPage, count)\<close>: the hole at position \<open>i\<close> is erased, and what
  is left of it before and after the allocated range is appended at the back of the
  list.
\<close>

definition splitHole :: "Hole list \<Rightarrow> nat \<Rightarrow> u64 \<Rightarrow> u64 \<Rightarrow> Hole list" where
  "splitHole hs i sp c =
     (let originalHole = hs ! i;
          hs1 = take i hs @ drop (Suc i) hs;
          hs2 = (if startPage originalHole < sp
                 then hs1 @ [\<lparr>startPage = startPage originalHole,
                               count = sp - startPage originalHole\<rparr>]
                 else hs1);
          endPage = sp + c;
          originalEndPage = startPage originalHole + count originalHole
      in if endPage < originalEndPage
         then hs2 @ [\<lparr>startPage = endPage, count = originalEndPage - endPage\<rparr>]
         else hs2)"

definition addHole :: "Hole list \<Rightarrow> u64 \<Rightarrow> u64 \<Rightarrow> Hole list" where
  "addHole hs sp c = hs @ [\<lparr>startPage = sp, count = c\<rparr>]"

text \<open>The merging loop of \<^verbatim>\<open>mergeHoles\<close> over the sorted list.\<close>

fun mergeAdjacent :: "Hole list \<Rightarrow> Hole list" where
  "mergeAdjacent (h # n # rest) =
     (if startPage h + count h = startPage n
      then mergeAdjacent (h\<lparr>count := count h + count n\<rparr> # rest)
      else h # mergeAdjacent (n # rest))"
| "mergeAdjacent hs = hs"

text \<open>\<^verbatim>\<open>mergeHoles\<close>: \<^verbatim>\<open>std::list::sort\<close> is stable, as \<^term>\<open>sort_key\<close> is.\<close>

definition mergeHoles :: "Hole list \<Rightarrow> Hole list" where
  "mergeHoles hs = mergeAdjacent (sort_key startPage hs)"

text \<open>
  \<^verbatim>\<open>allocatePages(count, addr)\<close>: the address on success; on failure the
  reference \<^verbatim>\<open>addr\<close> is not written.
\<close>

definition allocatePages :: "PhysMemManager \<Rightarrow> u64 \<Rightarrow> u64 option \<times> PhysMemManager" where
  "allocatePages m c =
     (if nPages m < nAllocatedPages m + c then (None, m)
      else case findFit (holes m) c of
        None \<Rightarrow> (None, m)
      | Some i \<Rightarrow>
          (let sp = startPage (holes m ! i);
               addr = baseAddress m + sp * pageSize m;
               n = nAllocatedPages m + c
           in (Some addr,
               m\<lparr>holes := splitHole (holes m) i sp c,
                 nAllocatedPages := n,
                 maxAllocatedPages := max (maxAllocatedPages m) n\<rparr>)))"

definition releasePages :: "PhysMemManager \<Rightarrow> u64 \<Rightarrow> u64 \<Rightarrow> error + PhysMemManager" where
  "releasePages m addr c =
     (if pageSize m = 0 then Inl (RuntimeError ''division by zero'')
      else Inr (m\<lparr>holes := mergeHoles (addHole (holes m) ((addr - baseAddress m) div pageSize m) c),
                 nAllocatedPages := nAllocatedPages m - c\<rparr>))"

definition allReleased :: "PhysMemManager \<Rightarrow> bool" where
  "allReleased m = (nAllocatedPages m = 0)"

definition getMaxAllocatedPages :: "PhysMemManager \<Rightarrow> u64" where
  "getMaxAllocatedPages m = maxAllocatedPages m"

section \<open>The bitmap allocator (\<^verbatim>\<open>os/physmemmanager.cc\<close>)\<close>

record BitmapManager =
  bm_baseAddress :: u64
  bm_pageSize :: u64
  bm_memorySize :: u64
  bm_nPages :: u64
  bm_nAllocatedPages :: u64
  bm_maxAllocatedPages :: u64
  allocated :: "bool list"

definition newBitmapManager :: "u64 \<Rightarrow> u64 \<Rightarrow> error + BitmapManager" where
  "newBitmapManager ps ms =
     (if ps = 0 then Inl (RuntimeError ''division by zero'')
      else if 2 * 1024 * 1024 * 1024 < ms
      then Inl (RuntimeError ''automatic protection: attempted to allocate more than 2 GiB of memory.'')
      else Inr \<lparr>bm_baseAddress = physMemBase, bm_pageSize = ps, bm_memorySize = ms,
                bm_nPages = ms div ps, bm_nAllocatedPages = 0, bm_maxAllocatedPages = 0,
                allocated = replicate (unat (ms div ps)) False\<rparr>)"

text \<open>
  The inner loop
  \<^verbatim>\<open>for ( ; index < start + count and index < nPages; ++index) if (allocated[index]) break;\<close>
  with \<open>lim = start + count\<close> (computed in 64 bits by the caller): the value of
  \<^verbatim>\<open>index\<close> when the loop is left.
\<close>

function testRun :: "bool list \<Rightarrow> nat \<Rightarrow> nat \<Rightarrow> nat \<Rightarrow> error + nat" where
  "testRun al n lim i =
     (if i < lim \<and> i < n then
        (if length al \<le> i then Inl OutOfBounds
         else if al ! i then Inr i
         else testRun al n lim (Suc i))
      else Inr i)"
  by pat_completeness auto
termination
  by (relation "measure (\<lambda>(al, n, lim, i). n - i)") auto

text \<open>
  The outer loop \<^verbatim>\<open>while (index < nPages)\<close> of \<^verbatim>\<open>allocatePages\<close>, entered with
  \<^verbatim>\<open>index\<close> = \<open>i\<close>: the first page of the run found, if any.  \<open>c\<close> is the request
  and \<open>n\<close> the number of pages, both below \<open>2 ^ 64\<close>.
\<close>

function firstFit :: "bool list \<Rightarrow> nat \<Rightarrow> nat \<Rightarrow> nat \<Rightarrow> error + nat option" where
  "firstFit al n c i =
     (if i < n then
        (if length al \<le> i then Inl OutOfBounds
         else if \<not> al ! i then
           (case testRun al n ((i + c) mod 2 ^ 64) i of
              Inl e \<Rightarrow> Inl e
            | Inr j \<Rightarrow> if j = (i + c) mod 2 ^ 64 then Inr (Some i)
                       else firstFit al n c (Suc j))
         else firstFit al n c (Suc i))
      else Inr None)"
  by pat_completeness auto
termination
proof (relation "measure (\<lambda>(al, n, c, i). n - i)")
  have mono: "i \<le> j" if "testRun al n lim i = Inr j" for al n lim i j
    using that
  proof (induction al n lim i rule: testRun.induct)
    case (1 al n lim i)
    show ?case
    proof (cases "i < lim \<and> i < n \<and> \<not> length al \<le> i \<and> \<not> al ! i")
      case True
      with "1.prems" have "testRun al n lim (Suc i) = Inr j" by simp
      with "1.IH" True have "Suc i \<le> j" by simp
      then show ?thesis by simp
    next
      case False
      with "1.prems" have "j = i" by (auto split: if_splits)
      then show ?thesis by simp
    qed
  qed
  show "wf (measure (\<lambda>(al, n, c, i). n - i))" by simp
  show "((al, n, c, Suc j), al, n, c, i) \<in> measure (\<lambda>(al, n, c, i). n - i)"
    if "i < n" and "testRun al n ((i + c) mod 2 ^ 64) i = Inr j" for al n c i j
    using mono [OF that(2)] that(1) by simp
  show "((al, n, c, Suc i), al, n, c, i) \<in> measure (\<lambda>(al, n, c, i). n - i)"
    if "i < n" for al n c i
    using that by simp
qed

text \<open>\<^verbatim>\<open>for (i = lo; i < hi; ++i) allocated[i] = v;\<close>\<close>

definition setRange :: "bool list \<Rightarrow> nat \<Rightarrow> nat \<Rightarrow> bool \<Rightarrow> error + bool list" where
  "setRange al lo hi v =
     (if hi \<le> lo then Inr al
      else if length al < hi then Inl OutOfBounds
      else Inr (take lo al @ replicate (hi - lo) v @ drop hi al))"

definition allocatePages_bm ::
  "BitmapManager \<Rightarrow> u64 \<Rightarrow> error + (u64 option \<times> BitmapManager)" where
  "allocatePages_bm m c =
     (if bm_nPages m < bm_nAllocatedPages m + c then Inr (None, m)
      else case firstFit (allocated m) (unat (bm_nPages m)) (unat c) 0 of
        Inl e \<Rightarrow> Inl e
      | Inr None \<Rightarrow> Inr (None, m)
      | Inr (Some start) \<Rightarrow>
          (case setRange (allocated m) start ((start + unat c) mod 2 ^ 64) True of
             Inl e \<Rightarrow> Inl e
           | Inr al \<Rightarrow>
               (let n = bm_nAllocatedPages m + c
                in Inr (Some (bm_baseAddress m + of_nat start * bm_pageSize m),
                        m\<lparr>allocated := al, bm_nAllocatedPages := n,
                          bm_maxAllocatedPages := max (bm_maxAllocatedPages m) n\<rparr>))))"

definition releasePages_bm :: "BitmapManager \<Rightarrow> u64 \<Rightarrow> u64 \<Rightarrow> error + BitmapManager" where
  "releasePages_bm m addr c =
     (if bm_pageSize m = 0 then Inl (RuntimeError ''division by zero'')
      else let index = (addr - bm_baseAddress m) div bm_pageSize m
           in case setRange (allocated m) (unat index) (unat (index + c)) False of
                Inl e \<Rightarrow> Inl e
              | Inr al \<Rightarrow> Inr (m\<lparr>allocated := al,
                                 bm_nAllocatedPages := bm_nAllocatedPages m - c\<rparr>))"

section \<open>AArch64 page tables (\<^verbatim>\<open>aarch64.h\<close>)\<close>

definition addressSpaceBits :: nat where
  "addressSpaceBits = 48"

definition pageBits :: nat where
  "pageBits = 14"

text \<open>\<^verbatim>\<open>AArch64::pageSize = 1UL << pageBits\<close>.\<close>

definition AArch64_pageSize :: u64 where
  "AArch64_pageSize = push_bit pageBits 1"

definition L0_BITS :: nat where "L0_BITS = 1"
definition L1_BITS :: nat where "L1_BITS = 11"
definition L2_BITS :: nat where "L2_BITS = 11"
definition L3_BITS :: nat where "L3_BITS = 11"

definition L0_ENTRIES :: u64 where "L0_ENTRIES = push_bit L0_BITS 1"
definition L1_ENTRIES :: u64 where "L1_ENTRIES = push_bit L1_BITS 1"

definition L0_INDEX :: "u64 \<Rightarrow> u64" where
  "L0_INDEX vaddr = drop_bit (L1_BITS + L2_BITS + L3_BITS + pageBits) vaddr AND (push_bit L0_BITS 1 - 1)"

definition L1_INDEX :: "u64 \<Rightarrow> u64" where
  "L1_INDEX vaddr = drop_bit (L2_BITS + L3_BITS + pageBits) vaddr AND (push_bit L1_BITS 1 - 1)"

definition L2_INDEX :: "u64 \<Rightarrow> u64" where
  "L2_INDEX vaddr = drop_bit (L3_BITS + pageBits) vaddr AND (push_bit L2_BITS 1 - 1)"

definition L3_INDEX :: "u64 \<Rightarrow> u64" where
  "L3_INDEX vaddr = drop_bit pageBits vaddr AND (push_bit L3_BITS 1 - 1)"

definition pageTableAlign :: u64 where
  "pageTableAlign = AArch64_pageSize"

text \<open>
  \<^verbatim>\<open>struct SimpleTableEntry\<close>: bit-fields of a 64-bit unit.  \<^verbatim>\<open>valid\<close>,
  \<^verbatim>\<open>type\<close> (1 = table), \<^verbatim>\<open>referenced\<close> and \<^verbatim>\<open>dirty\<close> are one bit each,
  \<^verbatim>\<open>physicalPageNum\<close> has 34 bits; the reserved and padding bits are never read.
  The fields add up to 64 bits, so an entry takes 8 bytes.
\<close>

record SimpleTableEntry =
  valid :: bool
  etype :: bool
  physicalPageNum :: "34 word"
  referenced :: bool
  dirty :: bool

definition sizeof_SimpleTableEntry :: u64 where
  "sizeof_SimpleTableEntry = 8"

text \<open>The all-zero entry left by \<^verbatim>\<open>memset(table, 0, size)\<close>.\<close>

definition zeroEntry :: SimpleTableEntry where
  "zeroEntry = \<lparr>valid = False, etype = False, physicalPageNum = 0, referenced = False,
     dirty = False\<rparr>"

text \<open>
  Memory: the table objects that are alive, each at its base address.  A pointer
  \<^verbatim>\<open>&table[i]\<close> is the pair of the base address and the index; an access through a
  pointer that is not the base of a live table, or beyond its last entry, is
  undefined behaviour.
\<close>

type_synonym heap = "u64 \<Rightarrow> SimpleTableEntry list option"

definition readEntry :: "heap \<Rightarrow> u64 \<Rightarrow> u64 \<Rightarrow> error + SimpleTableEntry" where
  "readEntry h table idx =
     (case h table of
        None \<Rightarrow> Inl OutOfBounds
      | Some es \<Rightarrow> if unat idx < length es then Inr (es ! unat idx) else Inl OutOfBounds)"

definition writeEntry :: "heap \<Rightarrow> u64 \<Rightarrow> u64 \<Rightarrow> SimpleTableEntry \<Rightarrow> error + heap" where
  "writeEntry h table idx e =
     (case h table of
        None \<Rightarrow> Inl OutOfBounds
      | Some es \<Rightarrow> if unat idx < length es then Inr (h(table \<mapsto> es[unat idx := e]))
                  else Inl OutOfBounds)"

text \<open>\<^verbatim>\<open>initTableEntry(entry, address, isTable)\<close>: the page number is cut to 34 bits.\<close>

definition initTableEntry :: "u64 \<Rightarrow> bool \<Rightarrow> SimpleTableEntry" where
  "initTableEntry address isTable =
     \<lparr>valid = True, etype = isTable, physicalPageNum = ucast (drop_bit pageBits address),
      referenced = False, dirty = False\<rparr>"

text \<open>\<^verbatim>\<open>getAddress(entry) = entry.physicalPageNum << pageBits\<close>, in 64 bits.\<close>

definition getAddress :: "SimpleTableEntry \<Rightarrow> u64" where
  "getAddress entry = push_bit pageBits (ucast (physicalPageNum entry))"

section \<open>The walker \<^verbatim>\<open>AArch64MMU::performTranslation\<close>\<close>

text \<open>
  The walk from \<^verbatim>\<open>root\<close> for the virtual page \<open>vp\<close>.  The result is the physical
  page when the translation succeeds (\<^verbatim>\<open>return true\<close>), \<open>None\<close> when it does not
  (\<^verbatim>\<open>return false\<close>, with \<^verbatim>\<open>pPage\<close> not written), and the memory afterwards.
\<close>

definition performTranslation ::
  "u64 \<Rightarrow> heap \<Rightarrow> u64 \<Rightarrow> bool \<Rightarrow> error + (u64 option \<times> heap)" where
  "performTranslation root h vp isWrite =
     (if root AND (pageTableAlign - 1) \<noteq> 0 then Inl (RuntimeError ''Unaligned page table access'')
      else
        let vAddr = push_bit pageBits vp;
            l0_idx = L0_INDEX vAddr; l1_idx = L1_INDEX vAddr;
            l2_idx = L2_INDEX vAddr; l3_idx = L3_INDEX vAddr
        in and_then (readEntry h root l0_idx) (\<lambda>e0.
           if \<not> valid e0 \<or> \<not> etype e0 then Inr (None, h)
           else and_then (readEntry h (getAddress e0) l1_idx) (\<lambda>e1.
           if \<not> valid e1 \<or> \<not> etype e1 then Inr (None, h)
           else and_then (readEntry h (getAddress e1) l2_idx) (\<lambda>e2.
           if \<not> valid e2 \<or> \<not> etype e2 then Inr (None, h)
           else and_then (readEntry h (getAddress e2) l3_idx) (\<lambda>e3.
           if \<not> valid e3 then Inr (None, h)
           else and_then
                  (writeEntry h (getAddress e2) l3_idx
                     (e3\<lparr>referenced := True, dirty := (if isWrite then True else dirty e3)\<rparr>))
                  (\<lambda>h'. Inr (Some (ucast (physicalPageNum e3)), h')))))))"

text \<open>
  The L3 slot a walk reaches, without any write: the base of the L3 table and the
  index, when the three interior entries are valid tables.
\<close>

definition reachedL3 :: "u64 \<Rightarrow> heap \<Rightarrow> u64 \<Rightarrow> error + (u64 \<times> u64) option" where
  "reachedL3 root h vp =
     (let vAddr = push_bit pageBits vp
      in and_then (readEntry h root (L0_INDEX vAddr)) (\<lambda>e0.
         if \<not> valid e0 \<or> \<not> etype e0 then Inr None
         else and_then (readEntry h (getAddress e0) (L1_INDEX vAddr)) (\<lambda>e1.
         if \<not> valid e1 \<or> \<not> etype e1 then Inr None
         else and_then (readEntry h (getAddress e1) (L2_INDEX vAddr)) (\<lambda>e2.
         if \<not> valid e2 \<or> \<not> etype e2 then Inr None
         else Inr (Some (getAddress e2, L3_INDEX vAddr))))))"

text \<open>
  The end of a walk, given the slot reached: nothing happens without a slot or on an
  invalid leaf; a valid leaf gets its \<^verbatim>\<open>referenced\<close> bit, and its \<^verbatim>\<open>dirty\<close>
  bit on a write.
\<close>

definition stampLeaf :: "heap \<Rightarrow> bool \<Rightarrow> (u64 \<times> u64) option \<Rightarrow> error + (u64 option \<times> heap)" where
  "stampLeaf h isWrite r =
     (case r of
        None \<Rightarrow> Inr (None, h)
      | Some (t, i) \<Rightarrow>
          and_then (readEntry h t i) (\<lambda>e3.
            if \<not> valid e3 then Inr (None, h)
            else and_then
                   (writeEntry h t i (e3\<lparr>referenced := True, dirty := (isWrite \<or> dirty e3)\<rparr>))
                   (\<lambda>h'. Inr (Some (ucast (physicalPageNum e3)), h'))))"

section \<open>The driver \<^verbatim>\<open>AArch64MMUDriver\<close>\<close>

text \<open>
  Modelled from the spec: the host kernel (\<^verbatim>\<open>oskernel.h\<close>) is not under \<^verbatim>\<open>src\<close>.
  \<^verbatim>\<open>allocateMemory(size, alignment)\<close> returns a pointer to a region of the
  requested size, \<^verbatim>\<open>releaseMemory(pointer, size)\<close> gives it back.  The addresses
  the kernel hands out, in order, are the list \<open>pool\<close>; a kernel with nothing left
  fails.  The region starts its life as a table object of \<open>size / 8\<close> entries once
  the driver has cleared it.
\<close>

record OSKernel =
  tables :: heap
  pool :: "u64 list"

definition allocateMemory :: "OSKernel \<Rightarrow> error + (u64 \<times> OSKernel)" where
  "allocateMemory k =
     (case pool k of
        [] \<Rightarrow> Inl (RuntimeError ''kernel: out of memory'')
      | p # ps \<Rightarrow> Inr (p, k\<lparr>pool := ps\<rparr>))"

definition releaseMemory :: "OSKernel \<Rightarrow> u64 \<Rightarrow> error + OSKernel" where
  "releaseMemory k p =
     (case tables k p of
        None \<Rightarrow> Inl OutOfBounds
      | Some es \<Rightarrow> Inr (k\<lparr>tables := (tables k)(p := None)\<rparr>))"

text \<open>
  The members of the driver; \<^verbatim>\<open>kernel\<close> is a pointer without ownership, null until
  \<^verbatim>\<open>setHostKernel\<close>, and the state of the kernel it points to is carried here.
\<close>

record AArch64MMUDriver =
  pageTables :: "u64 \<Rightarrow> u64 option"
  bytesAllocated :: u64
  kernel :: "OSKernel option"

definition newDriver :: AArch64MMUDriver where
  "newDriver = \<lparr>pageTables = Map.empty, bytesAllocated = 0, kernel = None\<rparr>"

definition setHostKernel :: "AArch64MMUDriver \<Rightarrow> OSKernel \<Rightarrow> AArch64MMUDriver" where
  "setHostKernel d k = d\<lparr>kernel := Some k\<rparr>"

text \<open>\<^verbatim>\<open>PhysPage\<close>: the address of the page and the pointer to its L3 entry.\<close>

record PhysPage =
  addr :: u64
  driverData :: "(u64 \<times> u64) option"

text \<open>A table of \<open>n\<close> cleared entries obtained from the kernel, and its address.\<close>

definition allocateTable :: "AArch64MMUDriver \<Rightarrow> u64 \<Rightarrow> error + (u64 \<times> AArch64MMUDriver)" where
  "allocateTable d n =
     (case kernel d of
        None \<Rightarrow> Inl OutOfBounds
      | Some k \<Rightarrow>
          and_then (allocateMemory k) (\<lambda>(p, k').
            Inr (p, d\<lparr>bytesAllocated := bytesAllocated d + n * sizeof_SimpleTableEntry,
                      kernel := Some (k'\<lparr>tables := (tables k')(p \<mapsto> replicate (unat n) zeroEntry)\<rparr>)\<rparr>)))"

definition allocatePageTableLevel :: "AArch64MMUDriver \<Rightarrow> error + (u64 \<times> AArch64MMUDriver)" where
  "allocatePageTableLevel d = allocateTable d L1_ENTRIES"

definition allocatePageTable :: "AArch64MMUDriver \<Rightarrow> u64 \<Rightarrow> error + AArch64MMUDriver" where
  "allocatePageTable d PID =
     and_then (allocateTable d L0_ENTRIES) (\<lambda>(l0_table, d').
       Inr (d'\<lparr>pageTables := (pageTables d')(PID \<mapsto> l0_table)\<rparr>))"

definition getPageTable :: "AArch64MMUDriver \<Rightarrow> u64 \<Rightarrow> u64" where
  "getPageTable d PID = (case pageTables d PID of None \<Rightarrow> 0 | Some root \<Rightarrow> root)"

definition getBytesAllocated :: "AArch64MMUDriver \<Rightarrow> u64" where
  "getBytesAllocated d = bytesAllocated d"

text \<open>Reading and writing table entries through the kernel's memory.\<close>

definition driverRead :: "AArch64MMUDriver \<Rightarrow> u64 \<Rightarrow> u64 \<Rightarrow> error + SimpleTableEntry" where
  "driverRead d table idx =
     (case kernel d of None \<Rightarrow> Inl OutOfBounds | Some k \<Rightarrow> readEntry (tables k) table idx)"

definition driverWrite ::
  "AArch64MMUDriver \<Rightarrow> u64 \<Rightarrow> u64 \<Rightarrow> SimpleTableEntry \<Rightarrow> error + AArch64MMUDriver" where
  "driverWrite d table idx e =
     (case kernel d of
        None \<Rightarrow> Inl OutOfBounds
      | Some k \<Rightarrow> and_then (writeEntry (tables k) table idx e) (\<lambda>h.
          Inr (d\<lparr>kernel := Some (k\<lparr>tables := h\<rparr>)\<rparr>)))"

definition getOrCreateTable ::
  "AArch64MMUDriver \<Rightarrow> u64 \<Rightarrow> u64 \<Rightarrow> error + (u64 \<times> AArch64MMUDriver)" where
  "getOrCreateTable d parent index =
     and_then (driverRead d parent index) (\<lambda>e.
       if \<not> valid e then
         and_then (allocatePageTableLevel d) (\<lambda>(newTable, d1).
         and_then (driverWrite d1 parent index (initTableEntry newTable True)) (\<lambda>d2.
           Inr (newTable, d2)))
       else if etype e then Inr (getAddress e, d)
       else Inl (RuntimeError ''Invalid page table entry: expected table but found page''))"

definition setMapping ::
  "AArch64MMUDriver \<Rightarrow> u64 \<Rightarrow> u64 \<Rightarrow> PhysPage \<Rightarrow> error + (AArch64MMUDriver \<times> PhysPage)" where
  "setMapping d PID vAddr0 page =
     (let vAddr = vAddr0 AND (push_bit addressSpaceBits 1 - 1);
          l0_idx = L0_INDEX vAddr; l1_idx = L1_INDEX vAddr;
          l2_idx = L2_INDEX vAddr; l3_idx = L3_INDEX vAddr
      in case pageTables d PID of
           None \<Rightarrow> Inl (RuntimeError ''Page table not found for PID'')
         | Some l0_table \<Rightarrow>
             and_then (getOrCreateTable d l0_table l0_idx) (\<lambda>(l1_table, d1).
             and_then (getOrCreateTable d1 l1_table l1_idx) (\<lambda>(l2_table, d2).
             and_then (getOrCreateTable d2 l2_table l2_idx) (\<lambda>(l3_table, d3).
             and_then (driverWrite d3 l3_table l3_idx (initTableEntry (addr page) False)) (\<lambda>d4.
               Inr (d4, page\<lparr>driverData := Some (l3_table, l3_idx)\<rparr>))))))"

definition setPageValid ::
  "AArch64MMUDriver \<Rightarrow> PhysPage \<Rightarrow> bool \<Rightarrow> error + AArch64MMUDriver" where
  "setPageValid d page setting =
     (case driverData page of
        None \<Rightarrow> Inl (RuntimeError ''Invalid page table entry pointer'')
      | Some (table, idx) \<Rightarrow>
          and_then (driverRead d table idx) (\<lambda>entry.
            if \<not> valid entry \<and> setting
            then Inl (RuntimeError ''Cannot validate an invalid page table entry'')
            else driverWrite d table idx (entry\<lparr>valid := setting\<rparr>)))"

text \<open>
  \<^verbatim>\<open>releasePageTableLevel(table, level)\<close> and its loop over the entries \<open>i < n\<close> of
  an interior table, which runs only for \<open>level < 3\<close>.
\<close>

function releasePageTableLevel :: "OSKernel \<Rightarrow> u64 \<Rightarrow> nat \<Rightarrow> error + OSKernel"
  and releaseChildren :: "OSKernel \<Rightarrow> u64 \<Rightarrow> nat \<Rightarrow> nat \<Rightarrow> nat \<Rightarrow> error + OSKernel" where
  "releasePageTableLevel k table level =
     (if table = 0 then Inr k
      else and_then (releaseChildren k table level 0
                       (unat (if level = 0 then L0_ENTRIES else L1_ENTRIES)))
             (\<lambda>k'. releaseMemory k' table))"
| "releaseChildren k table level i n =
     (if level < 3 \<and> i < n then
        and_then (readEntry (tables k) table (of_nat i)) (\<lambda>e.
          if valid e \<and> etype e
          then and_then (releasePageTableLevel k (getAddress e) (Suc level))
                 (\<lambda>k'. releaseChildren k' table level (Suc i) n)
          else releaseChildren k table level (Suc i) n)
      else Inr k)"
  by pat_completeness auto
termination
  by (relation "measures [\<lambda>x. case x of Inl (k, t, l) \<Rightarrow> 2 * (4 - l) + 1
                                   | Inr (k, t, l, i, n) \<Rightarrow> 2 * (4 - l),
                          \<lambda>x. case x of Inl (k, t, l) \<Rightarrow> 0 | Inr (k, t, l, i, n) \<Rightarrow> n - i]")
     auto

definition releasePageTable :: "AArch64MMUDriver \<Rightarrow> u64 \<Rightarrow> error + AArch64MMUDriver" where
  "releasePageTable d PID =
     (case pageTables d PID of
        None \<Rightarrow> Inr d
      | Some root \<Rightarrow>
          (case kernel d of
             None \<Rightarrow> Inl OutOfBounds
           | Some k \<Rightarrow>
               and_then (releasePageTableLevel k root 0) (\<lambda>k'.
                 Inr (d\<lparr>pageTables := (pageTables d)(PID := None), kernel := Some k'\<rparr>))))"

text \<open>A driver bound to a kernel that owns no table yet and will hand out \<open>ps\<close>.\<close>

definition bootDriver :: "u64 list \<Rightarrow> AArch64MMUDriver" where
  "bootDriver ps = setHostKernel newDriver \<lparr>tables = Map.empty, pool = ps\<rparr>"

text \<open>
  The page table of one process allocated twice in a row: the root after the first
  call, the root after the second call, and the bytes counted.
\<close>

definition allocateTwice :: "u64 list \<Rightarrow> u64 \<Rightarrow> error + (u64 \<times> u64 \<times> u64)" where
  "allocateTwice ps PID =
     and_then (allocatePageTable (bootDriver ps) PID) (\<lambda>d1.
     and_then (allocatePageTable d1 PID) (\<lambda>d2.
       Inr (getPageTable d1 PID, getPageTable d2 PID, getBytesAllocated d2)))"

text \<open>
  A page table is allocated for \<open>PID\<close> on a new driver, the page \<open>pg\<close> is mapped at
  \<open>va\<close>, and the walker translates the virtual page of \<open>va\<close> from the root of
  \<open>PID\<close>: the result of the translation, the bytes counted by the driver, and the
  pointer left in the handle.
\<close>

definition map_and_walk ::
  "u64 list \<Rightarrow> u64 \<Rightarrow> u64 \<Rightarrow> PhysPage \<Rightarrow> bool
     \<Rightarrow> error + (u64 option \<times> u64 \<times> (u64 \<times> u64) option)" where
  "map_and_walk ps PID va pg w =
     and_then (allocatePageTable (bootDriver ps) PID) (\<lambda>d1.
     and_then (setMapping d1 PID va pg) (\<lambda>(d2, pg').
       case kernel d2 of
         None \<Rightarrow> Inl OutOfBounds
       | Some k \<Rightarrow>
           and_then (performTranslation (getPageTable d2 PID) (tables k)
                       (drop_bit pageBits (va AND (push_bit addressSpaceBits 1 - 1))) w)
             (\<lambda>(r, h). Inr (r, getBytesAllocated d2, driverData pg'))))"

text \<open>The number of addresses the kernel of the driver has left to hand out.\<close>

definition poolSize :: "AArch64MMUDriver \<Rightarrow> nat" where
  "poolSize d = (case kernel d of None \<Rightarrow> 0 | Some k \<Rightarrow> length (pool k))"

text \<open>Sequences of calls of the public interface of the driver.\<close>

datatype driver_op =
    AllocatePageTable u64
  | ReleasePageTable u64
  | SetMapping u64 u64 PhysPage
  | SetPageValid PhysPage bool

fun run_op :: "AArch64MMUDriver \<Rightarrow> driver_op \<Rightarrow> error + AArch64MMUDriver" where
  "run_op d (AllocatePageTable PID) = allocatePageTable d PID"
| "run_op d (ReleasePageTable PID) = releasePageTable d PID"
| "run_op d (SetMapping PID vAddr page) = and_then (setMapping d PID vAddr page) (\<lambda>(d', page'). Inr d')"
| "run_op d (SetPageValid page setting) = setPageValid d page setting"

fun run_ops :: "AArch64MMUDriver \<Rightarrow> driver_op list \<Rightarrow> error + AArch64MMUDriver" where
  "run_ops d [] = Inr d"
| "run_ops d (x # xs) = and_then (run_op d x) (\<lambda>d'. run_ops d' xs)"

section \<open>Well-formed page tables\<close>

text \<open>
  The invariants of the data model, over the tables in memory.  With a level for
  every table, a valid entry of a table below level 3 is a table entry, and what it
  points to is a live table of 2048 entries on the next level.  (Entries of a table
  on level 3 are leaves and not constrained.)
\<close>

definition typed :: "(u64 \<Rightarrow> nat) \<Rightarrow> heap \<Rightarrow> bool" where
  "typed lvl h \<longleftrightarrow>
     (\<forall>t es e. h t = Some es \<and> lvl t < 3 \<and> e \<in> set es \<and> valid e \<longrightarrow>
        etype e \<and> lvl (getAddress e) = Suc (lvl t)
        \<and> (\<exists>es'. h (getAddress e) = Some es' \<and> length es' = 2048))"

text \<open>
  The state of a driver is well formed when its kernel's memory is, and every root in
  the process map is an aligned, live L0 table of two entries.
\<close>

definition driver_inv :: "AArch64MMUDriver \<Rightarrow> bool" where
  "driver_inv d \<longleftrightarrow>
     (\<exists>k lvl. kernel d = Some k \<and> typed lvl (tables k)
        \<and> (\<forall>PID root. pageTables d PID = Some root \<longrightarrow>
              root AND (pageTableAlign - 1) = 0 \<and> lvl root = 0
              \<and> (\<exists>es. tables k root = Some es \<and> length es = 2)))"

text \<open>
  What the driver expects of the next \<open>n\<close> addresses returned by the kernel: they are
  distinct, not in use by a live table, aligned to the page-table alignment, and
  inside the 48-bit physical address space.
\<close>

definition pool_ok :: "nat \<Rightarrow> OSKernel \<Rightarrow> bool" where
  "pool_ok n k \<longleftrightarrow>
     n \<le> length (pool k) \<and> distinct (take n (pool k))
     \<and> (\<forall>p \<in> set (take n (pool k)).
           tables k p = None \<and> p AND (pageTableAlign - 1) = 0 \<and> p < 2 ^ 48)"


section \<open>The walker test fixture \<^verbatim>\<open>AArch64MMUFixture\<close>\<close>

text \<open>
  The fixture owns one table per level, at the addresses the aligned \<^verbatim>\<open>new\<close>
  returned, all entries cleared, and points the MMU at the L0 table.
\<close>

record AArch64MMUFixture =
  l0_table :: u64
  l1_table :: u64
  l2_table :: u64
  l3_table :: u64
  memory :: heap

definition newFixture :: "u64 \<Rightarrow> u64 \<Rightarrow> u64 \<Rightarrow> u64 \<Rightarrow> AArch64MMUFixture" where
  "newFixture p0 p1 p2 p3 =
     \<lparr>l0_table = p0, l1_table = p1, l2_table = p2, l3_table = p3,
      memory = [p0 \<mapsto> replicate (unat L0_ENTRIES) zeroEntry,
                p1 \<mapsto> replicate (unat L1_ENTRIES) zeroEntry,
                p2 \<mapsto> replicate (unat L1_ENTRIES) zeroEntry,
                p3 \<mapsto> replicate (unat L1_ENTRIES) zeroEntry]\<rparr>"

text \<open>The root the fixture hands to \<^verbatim>\<open>setPageTablePointer\<close>.\<close>

definition fixtureRoot :: "AArch64MMUFixture \<Rightarrow> u64" where
  "fixtureRoot f = l0_table f"

text \<open>
  One step of \<^verbatim>\<open>setupValidMapping\<close>: the fields \<^verbatim>\<open>valid\<close>, \<^verbatim>\<open>type\<close> and
  \<^verbatim>\<open>physicalPageNum\<close> of the entry are assigned, the others keep their value.
\<close>

definition setupEntry :: "heap \<Rightarrow> u64 \<Rightarrow> u64 \<Rightarrow> bool \<Rightarrow> u64 \<Rightarrow> error + heap" where
  "setupEntry h table idx ty ppn =
     and_then (readEntry h table idx) (\<lambda>e.
       writeEntry h table idx (e\<lparr>valid := True, etype := ty, physicalPageNum := ucast ppn\<rparr>))"

definition setupValidMapping ::
  "AArch64MMUFixture \<Rightarrow> u64 \<Rightarrow> u64 \<Rightarrow> error + AArch64MMUFixture" where
  "setupValidMapping f vp pp =
     (let vAddr = push_bit pageBits vp
      in and_then (setupEntry (memory f) (l0_table f) (L0_INDEX vAddr) True
                     (drop_bit pageBits (l1_table f))) (\<lambda>h1.
         and_then (setupEntry h1 (l1_table f) (L1_INDEX vAddr) True
                     (drop_bit pageBits (l2_table f))) (\<lambda>h2.
         and_then (setupEntry h2 (l2_table f) (L2_INDEX vAddr) True
                     (drop_bit pageBits (l3_table f))) (\<lambda>h3.
         and_then (setupEntry h3 (l3_table f) (L3_INDEX vAddr) False pp) (\<lambda>h4.
           Inr (f\<lparr>memory := h4\<rparr>))))))"

text \<open>
  The tests \<^verbatim>\<open>valid_translation\<close>, \<^verbatim>\<open>referenced_bit_test\<close> and
  \<^verbatim>\<open>dirty_bit_test\<close> in one run: a mapping \<open>vp \<mapsto> pp\<close> is set up, the page is
  translated for a read and then for a write; the result is, for each of the two
  translations, what it returned and the \<^verbatim>\<open>referenced\<close> and \<^verbatim>\<open>dirty\<close> bits of
  the L3 entry afterwards.
\<close>

definition bit_stamping_test ::
  "AArch64MMUFixture \<Rightarrow> u64 \<Rightarrow> u64
     \<Rightarrow> error + ((u64 option \<times> bool \<times> bool) \<times> (u64 option \<times> bool \<times> bool))" where
  "bit_stamping_test f0 vp pp =
     and_then (setupValidMapping f0 vp pp) (\<lambda>f.
     and_then (performTranslation (fixtureRoot f) (memory f) vp False) (\<lambda>(p1, h1).
     and_then (readEntry h1 (l3_table f) (L3_INDEX (push_bit pageBits vp))) (\<lambda>e1.
     and_then (performTranslation (fixtureRoot f) h1 vp True) (\<lambda>(p2, h2).
     and_then (readEntry h2 (l3_table f) (L3_INDEX (push_bit pageBits vp))) (\<lambda>e2.
       Inr ((p1, referenced e1, dirty e1), (p2, referenced e2, dirty e2)))))))"

section \<open>Free space as the allocators see it\<close>






section \<open>The allocator test \<^verbatim>\<open>first_fit_behavior\<close>\<close>

text \<open>
  The loop \<^verbatim>\<open>for (i = 0; i < k; i++) { allocatePages(c, addr); addrs.push_back(addr); }\<close>
  of the test, on the hole list and on the bitmap.
\<close>

fun allocateMany :: "PhysMemManager \<Rightarrow> nat \<Rightarrow> u64 \<Rightarrow> u64 option list \<times> PhysMemManager" where
  "allocateMany m 0 c = ([], m)"
| "allocateMany m (Suc k) c =
     (case allocatePages m c of (a, m1) \<Rightarrow>
        (case allocateMany m1 k c of (as, m2) \<Rightarrow> (a # as, m2)))"

fun allocateMany_bm ::
  "BitmapManager \<Rightarrow> nat \<Rightarrow> u64 \<Rightarrow> error + (u64 option list \<times> BitmapManager)" where
  "allocateMany_bm m 0 c = Inr ([], m)"
| "allocateMany_bm m (Suc k) c =
     and_then (allocatePages_bm m c) (\<lambda>(a, m1).
     and_then (allocateMany_bm m1 k c) (\<lambda>(as, m2). Inr (a # as, m2)))"

text \<open>
  The test with page size \<open>ps\<close> and 30 pages: six blocks of five pages, the blocks 0,
  2 and 4 released, then a request of three pages and one of two.  The result is
  the six addresses, the two addresses \<^verbatim>\<open>newAddr\<close> and \<^verbatim>\<open>newAddr2\<close>, and the
  free-space structure between the two last requests.
\<close>

definition first_fit_behavior ::
  "u64 \<Rightarrow> error + (u64 option list \<times> u64 option \<times> Hole list \<times> u64 option)" where
  "first_fit_behavior ps =
     and_then (newPhysMemManager ps (30 * ps)) (\<lambda>manager.
       case allocateMany manager 6 5 of (addrs, m1) \<Rightarrow>
       and_then (releasePages m1 (the (addrs ! 0)) 5) (\<lambda>m2.
       and_then (releasePages m2 (the (addrs ! 2)) 5) (\<lambda>m3.
       and_then (releasePages m3 (the (addrs ! 4)) 5) (\<lambda>m4.
         case allocatePages m4 3 of (newAddr, m5) \<Rightarrow>
         case allocatePages m5 2 of (newAddr2, m6) \<Rightarrow>
           Inr (addrs, newAddr, holes m5, newAddr2)))))"

definition first_fit_behavior_bm ::
  "u64 \<Rightarrow> error + (u64 option list \<times> u64 option \<times> bool list \<times> u64 option)" where
  "first_fit_behavior_bm ps =
     and_then (newBitmapManager ps (30 * ps)) (\<lambda>manager.
     and_then (allocateMany_bm manager 6 5) (\<lambda>(addrs, m1).
     and_then (releasePages_bm m1 (the (addrs ! 0)) 5) (\<lambda>m2.
     and_then (releasePages_bm m2 (the (addrs ! 2)) 5) (\<lambda>m3.
     and_then (releasePages_bm m3 (the (addrs ! 4)) 5) (\<lambda>m4.
     and_then (allocatePages_bm m4 3) (\<lambda>(newAddr, m5).
     and_then (allocatePages_bm m5 2) (\<lambda>(newAddr2, m6).
       Inr (addrs, newAddr, allocated m5, newAddr2))))))))"





text \<open>Shorthands for the states of a 30-page memory with 16 KiB pages.\<close>

definition H :: "u64 \<Rightarrow> u64 \<Rightarrow> Hole" where
  "H s c = \<lparr>startPage = s, count = c\<rparr>"

definition hm30 :: "Hole list \<Rightarrow> u64 \<Rightarrow> u64 \<Rightarrow> PhysMemManager" where
  "hm30 hs n mx = \<lparr>baseAddress = physMemBase, pageSize = 16384, memorySize = 30 * 16384,
     nPages = 30, nAllocatedPages = n, maxAllocatedPages = mx, holes = hs\<rparr>"

definition bm30 :: "bool list \<Rightarrow> u64 \<Rightarrow> u64 \<Rightarrow> BitmapManager" where
  "bm30 al n mx = \<lparr>bm_baseAddress = physMemBase, bm_pageSize = 16384,
     bm_memorySize = 30 * 16384, bm_nPages = 30, bm_nAllocatedPages = n,
     bm_maxAllocatedPages = mx, allocated = al\<rparr>"

text \<open>Five pages in use, five pages free.\<close>

definition U5 :: "bool list" where
  "U5 = [True, True, True, True, True]"

definition F5 :: "bool list" where
  "F5 = [False, False, False, False, False]"

text \<open>Three pages in use, two pages free.\<close>

definition U3F2 :: "bool list" where
  "U3F2 = [True, True, True, False, False]"

chapter \<open>Properties\<close>

section \<open>Two TLB objects over the shared statics\<close>

lemmas tlb_defs = TLB_lookup_def TLB_add_def TLB_flush_def newTLB_def globals0_def resize_def
  TLBEntry0_def mkTLBEntry_def and_then_def getStatistics_def

text \<open>
  C2 (the state of a TLB is scoped to its instance: operations on one instance never
  change the lookup results or the statistics of another).  The slot array, the LRU
  list and the initialisation flag are file-scope statics, so the claim fails on this
  code.  Two objects \<open>A\<close> and \<open>B\<close> of capacity 4: \<open>B\<close> looks page \<open>0x1000\<close> up
  twice and misses twice when \<open>A\<close> is idle; when \<open>A\<close> adds
  \<open>0x1000 \<mapsto> 0x2000\<close> between the two lookups of \<open>B\<close>, the second lookup of
  \<open>B\<close> hits on the entry \<open>A\<close> stored, and the statistics of \<open>B\<close> report one hit
  instead of none.
\<close>

theorem TLB_instances_interfere:
  "and_then (TLB_lookup (newTLB 4) globals0 0 0x1000) (\<lambda>(r1, B1, g1).
     and_then (TLB_lookup B1 g1 0 0x1000) (\<lambda>(r2, B2, g2).
       Inr (r2, getStatistics B2)))
   = Inr (None, (2, 0, 0, 0, 0))
   \<and>
   and_then (TLB_lookup (newTLB 4) globals0 0 0x1000) (\<lambda>(r1, B1, g1).
     and_then (TLB_add (newTLB 4) g1 0 0x1000 0x2000) (\<lambda>(A1, g1').
       and_then (TLB_lookup B1 g1' 0 0x1000) (\<lambda>(r2, B2, g2).
         Inr (r2, getStatistics B2))))
   = Inr (Some 0x2000, (2, 1, 0, 0, 0))"
  by (simp add: tlb_defs numeral_eq_Suc)

section \<open>First fit on the two allocators\<close>

lemma replicate_numeral: "replicate (numeral k) x = x # replicate (pred_numeral k) x"
  by (simp add: numeral_eq_Suc)

lemma six_Suc: "(6::nat) = Suc (Suc (Suc (Suc (Suc (Suc 0)))))"
  by simp

lemmas holes_defs = hm30_def H_def allocatePages_def releasePages_def splitHole_def
  mergeHoles_def addHole_def physMemBase_def newPhysMemManager_def

lemma hm30_new: "newPhysMemManager 16384 (30 * 16384) = Inr (hm30 [H 0 30] 0 0)"
  by (simp add: holes_defs)

lemma hm30_alloc1: "allocatePages (hm30 [H 0 30] 0 0) 5 = (Some 0x400000000, hm30 [H 5 25] 5 5)"
  by (simp add: holes_defs)

lemma hm30_alloc2: "allocatePages (hm30 [H 5 25] 5 5) 5 = (Some 0x400014000, hm30 [H 10 20] 10 10)"
  by (simp add: holes_defs)

lemma hm30_alloc3:
  "allocatePages (hm30 [H 10 20] 10 10) 5 = (Some 0x400028000, hm30 [H 15 15] 15 15)"
  by (simp add: holes_defs)

lemma hm30_alloc4:
  "allocatePages (hm30 [H 15 15] 15 15) 5 = (Some 0x40003C000, hm30 [H 20 10] 20 20)"
  by (simp add: holes_defs)

lemma hm30_alloc5:
  "allocatePages (hm30 [H 20 10] 20 20) 5 = (Some 0x400050000, hm30 [H 25 5] 25 25)"
  by (simp add: holes_defs)

lemma hm30_alloc6: "allocatePages (hm30 [H 25 5] 25 25) 5 = (Some 0x400064000, hm30 [] 30 30)"
  by (simp add: holes_defs)

lemma hm30_allocateMany:
  "allocateMany (hm30 [H 0 30] 0 0) 6 5 =
     ([Some 0x400000000, Some 0x400014000, Some 0x400028000, Some 0x40003C000,
       Some 0x400050000, Some 0x400064000], hm30 [] 30 30)"
  by (simp add: six_Suc hm30_alloc1 hm30_alloc2 hm30_alloc3 hm30_alloc4 hm30_alloc5 hm30_alloc6)

lemma hm30_release0: "releasePages (hm30 [] 30 30) 0x400000000 5 = Inr (hm30 [H 0 5] 25 30)"
  by (simp add: holes_defs)

lemma hm30_release2:
  "releasePages (hm30 [H 0 5] 25 30) 0x400028000 5 = Inr (hm30 [H 0 5, H 10 5] 20 30)"
  by (simp add: holes_defs)

lemma hm30_release4:
  "releasePages (hm30 [H 0 5, H 10 5] 20 30) 0x400050000 5
     = Inr (hm30 [H 0 5, H 10 5, H 20 5] 15 30)"
  by (simp add: holes_defs)

lemma hm30_three:
  "allocatePages (hm30 [H 0 5, H 10 5, H 20 5] 15 30) 3
     = (Some 0x400000000, hm30 [H 10 5, H 20 5, H 3 2] 18 30)"
  by (simp add: holes_defs)

lemma hm30_two:
  "allocatePages (hm30 [H 10 5, H 20 5, H 3 2] 18 30) 2
     = (Some 0x400028000, hm30 [H 20 5, H 3 2, H 12 3] 20 30)"
  by (simp add: holes_defs)

lemma first_fit_behavior_value:
  "first_fit_behavior 16384 =
     Inr ([Some 0x400000000, Some 0x400014000, Some 0x400028000, Some 0x40003C000,
           Some 0x400050000, Some 0x400064000],
          Some 0x400000000, [H 10 5, H 20 5, H 3 2], Some 0x400028000)"
  unfolding first_fit_behavior_def hm30_new
  by (simp add: and_then_def hm30_allocateMany hm30_release0 hm30_release2 hm30_release4
      hm30_three hm30_two)
     (simp add: hm30_def)

lemmas bitmap_defs = bm30_def U5_def F5_def U3F2_def allocatePages_bm_def releasePages_bm_def
  setRange_def physMemBase_def newBitmapManager_def replicate_numeral

lemma bm30_new:
  "newBitmapManager 16384 (30 * 16384) = Inr (bm30 (F5 @ F5 @ F5 @ F5 @ F5 @ F5) 0 0)"
  by (simp add: bitmap_defs)

lemma bm30_alloc1:
  "allocatePages_bm (bm30 (F5 @ F5 @ F5 @ F5 @ F5 @ F5) 0 0) 5
     = Inr (Some 0x400000000, bm30 (U5 @ F5 @ F5 @ F5 @ F5 @ F5) 5 5)"
  by (simp add: bitmap_defs)

lemma bm30_alloc2:
  "allocatePages_bm (bm30 (U5 @ F5 @ F5 @ F5 @ F5 @ F5) 5 5) 5
     = Inr (Some 0x400014000, bm30 (U5 @ U5 @ F5 @ F5 @ F5 @ F5) 10 10)"
  by (simp add: bitmap_defs)

lemma bm30_alloc3:
  "allocatePages_bm (bm30 (U5 @ U5 @ F5 @ F5 @ F5 @ F5) 10 10) 5
     = Inr (Some 0x400028000, bm30 (U5 @ U5 @ U5 @ F5 @ F5 @ F5) 15 15)"
  by (simp add: bitmap_defs)

lemma bm30_alloc4:
  "allocatePages_bm (bm30 (U5 @ U5 @ U5 @ F5 @ F5 @ F5) 15 15) 5
     = Inr (Some 0x40003C000, bm30 (U5 @ U5 @ U5 @ U5 @ F5 @ F5) 20 20)"
  by (simp add: bitmap_defs)

lemma bm30_alloc5:
  "allocatePages_bm (bm30 (U5 @ U5 @ U5 @ U5 @ F5 @ F5) 20 20) 5
     = Inr (Some 0x400050000, bm30 (U5 @ U5 @ U5 @ U5 @ U5 @ F5) 25 25)"
  by (simp add: bitmap_defs)

lemma bm30_alloc6:
  "allocatePages_bm (bm30 (U5 @ U5 @ U5 @ U5 @ U5 @ F5) 25 25) 5
     = Inr (Some 0x400064000, bm30 (U5 @ U5 @ U5 @ U5 @ U5 @ U5) 30 30)"
  by (simp add: bitmap_defs)

lemma bm30_allocateMany:
  "allocateMany_bm (bm30 (F5 @ F5 @ F5 @ F5 @ F5 @ F5) 0 0) 6 5 =
     Inr ([Some 0x400000000, Some 0x400014000, Some 0x400028000, Some 0x40003C000,
           Some 0x400050000, Some 0x400064000], bm30 (U5 @ U5 @ U5 @ U5 @ U5 @ U5) 30 30)"
  by (simp add: six_Suc and_then_def bm30_alloc1 bm30_alloc2 bm30_alloc3 bm30_alloc4
      bm30_alloc5 bm30_alloc6)

lemma bm30_release0:
  "releasePages_bm (bm30 (U5 @ U5 @ U5 @ U5 @ U5 @ U5) 30 30) 0x400000000 5
     = Inr (bm30 (F5 @ U5 @ U5 @ U5 @ U5 @ U5) 25 30)"
  by (simp add: bitmap_defs)

lemma bm30_release2:
  "releasePages_bm (bm30 (F5 @ U5 @ U5 @ U5 @ U5 @ U5) 25 30) 0x400028000 5
     = Inr (bm30 (F5 @ U5 @ F5 @ U5 @ U5 @ U5) 20 30)"
  by (simp add: bitmap_defs)

lemma bm30_release4:
  "releasePages_bm (bm30 (F5 @ U5 @ F5 @ U5 @ U5 @ U5) 20 30) 0x400050000 5
     = Inr (bm30 (F5 @ U5 @ F5 @ U5 @ F5 @ U5) 15 30)"
  by (simp add: bitmap_defs)

lemma bm30_three:
  "allocatePages_bm (bm30 (F5 @ U5 @ F5 @ U5 @ F5 @ U5) 15 30) 3
     = Inr (Some 0x400000000,
            bm30 (U3F2 @ U5 @ F5 @ U5 @ F5 @ U5) 18 30)"
  by (simp add: bitmap_defs)

lemma bm30_two:
  "allocatePages_bm (bm30 (U3F2 @ U5 @ F5 @ U5 @ F5 @ U5) 18 30) 2
     = Inr (Some 0x40000C000, bm30 (U5 @ U5 @ F5 @ U5 @ F5 @ U5) 20 30)"
  by (simp add: bitmap_defs)

lemma first_fit_behavior_bm_value:
  "first_fit_behavior_bm 16384 =
     Inr ([Some 0x400000000, Some 0x400014000, Some 0x400028000, Some 0x40003C000,
           Some 0x400050000, Some 0x400064000],
          Some 0x400000000,
          U3F2 @ U5 @ F5 @ U5 @ F5 @ U5,
          Some 0x40000C000)"
  unfolding first_fit_behavior_bm_def bm30_new
  by (simp add: and_then_def bm30_allocateMany bm30_release0 bm30_release2 bm30_release4
      bm30_three bm30_two)
     (simp add: bm30_def)

text \<open>
  C1 as stated (after the request of three pages has been served at \<open>a0\<close>, the
  request of two pages is served from the tail of the first hole, at
  \<open>a0 + 3 * pageSize\<close>) fails on the hole list: with 16 KiB pages the six blocks are
  at \<open>0x400000000 + i * 0x14000\<close>, the request of three pages returns \<open>a0\<close>, and
  the request of two pages returns \<open>a2 = 0x400028000\<close>, which is not
  \<open>a0 + 3 * 16384 = 0x40000C000\<close>.
\<close>

theorem first_fit_behavior_not_in_place:
  "first_fit_behavior 16384 =
     Inr ([Some 0x400000000, Some 0x400014000, Some 0x400028000, Some 0x40003C000,
           Some 0x400050000, Some 0x400064000],
          Some 0x400000000, [H 10 5, H 20 5, H 3 2], Some 0x400028000)
   \<and> (0x400028000 :: u64) \<noteq> 0x400000000 + 3 * 16384"
  using first_fit_behavior_value by simp

text \<open>
  C1, amended: with 30 pages, six blocks of five pages \<open>a0 .. a5\<close> allocated and
  \<open>a0\<close>, \<open>a2\<close>, \<open>a4\<close> released, a request of three pages returns \<open>a0\<close> on both
  allocators.  On the hole list \<^verbatim>\<open>splitHole\<close> erases the hole and appends its
  two-page remainder (start page 3) behind the holes at pages 10 and 20, so the
  request of two pages that follows returns \<open>a2\<close>; on the bitmap the pages 3 and 4
  stay free in place and the request of two pages returns \<open>a0 + 3 * pageSize\<close>.
\<close>

theorem first_fit_positions:
  "first_fit_behavior 16384 =
     Inr ([Some 0x400000000, Some 0x400014000, Some 0x400028000, Some 0x40003C000,
           Some 0x400050000, Some 0x400064000],
          Some 0x400000000, [H 10 5, H 20 5, H 3 2], Some (0x400000000 + 10 * 16384))
   \<and>
   first_fit_behavior_bm 16384 =
     Inr ([Some 0x400000000, Some 0x400014000, Some 0x400028000, Some 0x40003C000,
           Some 0x400050000, Some 0x400064000],
          Some 0x400000000, U3F2 @ U5 @ F5 @ U5 @ F5 @ U5, Some (0x400000000 + 3 * 16384))"
  using first_fit_behavior_value first_fit_behavior_bm_value by simp

section \<open>The walker\<close>

lemmas pt_defs = pageBits_def addressSpaceBits_def L0_BITS_def L1_BITS_def L2_BITS_def L3_BITS_def
  L0_ENTRIES_def L1_ENTRIES_def L0_INDEX_def L1_INDEX_def L2_INDEX_def L3_INDEX_def
  pageTableAlign_def AArch64_pageSize_def

lemma and_then_Inr: "and_then m f = Inr y \<longleftrightarrow> (\<exists>x. m = Inr x \<and> f x = Inr y)"
  by (cases m) (simp_all add: and_then_def)

lemma readEntry_Inr:
  "readEntry h t i = Inr e \<longleftrightarrow> (\<exists>es. h t = Some es \<and> unat i < length es \<and> e = es ! unat i)"
  by (auto simp: readEntry_def split: option.splits)

lemma writeEntry_Inr:
  "writeEntry h t i e = Inr h'
     \<longleftrightarrow> (\<exists>es. h t = Some es \<and> unat i < length es \<and> h' = h(t \<mapsto> es[unat i := e]))"
  by (auto simp: writeEntry_def split: option.splits)

lemma L0_INDEX_less: "unat (L0_INDEX v) < 2"
proof -
  have "L0_INDEX v \<le> 1"
    unfolding L0_INDEX_def L0_BITS_def by (simp add: word_and_le1)
  then have "unat (L0_INDEX v) \<le> unat (1 :: u64)"
    by (simp add: word_le_nat_alt)
  then show ?thesis by simp
qed

lemma index_less_2048: "unat (x AND (push_bit 11 1 - 1 :: u64)) < 2048"
proof -
  have "x AND (push_bit 11 1 - 1) \<le> (2047 :: u64)"
    by (simp add: word_and_le1)
  then have "unat (x AND (push_bit 11 1 - 1)) \<le> unat (2047 :: u64)"
    by (simp only: word_le_nat_alt)
  then show ?thesis by simp
qed

lemma L1_INDEX_less: "unat (L1_INDEX v) < 2048"
  unfolding L1_INDEX_def L1_BITS_def by (rule index_less_2048)

lemma L2_INDEX_less: "unat (L2_INDEX v) < 2048"
  unfolding L2_INDEX_def L2_BITS_def by (rule index_less_2048)

lemma L3_INDEX_less: "unat (L3_INDEX v) < 2048"
  unfolding L3_INDEX_def L3_BITS_def by (rule index_less_2048)

text \<open>The walk is the search of the slot followed by the stamping of the leaf.\<close>

lemma performTranslation_reached:
  "root AND (pageTableAlign - 1) = 0 \<Longrightarrow>
   performTranslation root h vp w = and_then (reachedL3 root h vp) (stampLeaf h w)"
  by (simp add: performTranslation_def reachedL3_def stampLeaf_def Let_def and_then_def
      split: sum.splits)

lemma performTranslation_aligned:
  "performTranslation root h vp w = Inr r \<Longrightarrow> root AND (pageTableAlign - 1) = 0"
  by (auto simp: performTranslation_def split: if_splits)

lemma stampLeaf_None: "stampLeaf h w r = Inr (None, h') \<Longrightarrow> h' = h"
  by (auto simp: stampLeaf_def and_then_Inr split: option.splits if_splits)

lemma performTranslation_false_frame:
  assumes "performTranslation root h vp w = Inr (None, h')"
  shows "h' = h"
proof -
  have al: "root AND (pageTableAlign - 1) = 0"
    using assms by (rule performTranslation_aligned)
  from assms obtain r where "stampLeaf h w r = Inr (None, h')"
    by (auto simp: performTranslation_reached [OF al] and_then_Inr)
  then show ?thesis by (rule stampLeaf_None)
qed

lemma performTranslation_success:
  assumes "performTranslation root h vp w = Inr (Some p, h')"
  shows "\<exists>t i es. reachedL3 root h vp = Inr (Some (t, i)) \<and> h t = Some es \<and> unat i < length es
           \<and> valid (es ! unat i) \<and> p = ucast (physicalPageNum (es ! unat i))
           \<and> h' = h(t \<mapsto> es[unat i := (es ! unat i)\<lparr>referenced := True,
                                        dirty := (w \<or> dirty (es ! unat i))\<rparr>])"
proof -
  have al: "root AND (pageTableAlign - 1) = 0"
    using assms by (rule performTranslation_aligned)
  from assms obtain r
    where r: "reachedL3 root h vp = Inr r" and s: "stampLeaf h w r = Inr (Some p, h')"
    by (auto simp: performTranslation_reached [OF al] and_then_Inr)
  from s obtain t i where ti: "r = Some (t, i)"
    by (cases r) (auto simp: stampLeaf_def)
  from s ti obtain e3 where e3: "readEntry h t i = Inr e3" and v: "valid e3"
    and wr: "writeEntry h t i (e3\<lparr>referenced := True, dirty := (w \<or> dirty e3)\<rparr>) = Inr h'"
    and p: "p = ucast (physicalPageNum e3)"
    by (auto simp: stampLeaf_def and_then_Inr split: if_splits)
  from e3 obtain es where "h t = Some es" "unat i < length es" "e3 = es ! unat i"
    by (auto simp: readEntry_Inr)
  with wr v p r ti show ?thesis by (auto simp: writeEntry_Inr)
qed

text \<open>On the cleared tables of a new fixture no page translates.\<close>

lemma fresh_fixture_misses:
  assumes "p0 AND (pageTableAlign - 1) = 0"
  shows "performTranslation (fixtureRoot (newFixture p0 p1 p2 p3))
           (memory (newFixture p0 p1 p2 p3)) vp w
         = Inr (None, memory (newFixture p0 p1 p2 p3))"
proof -
  let ?h = "memory (newFixture p0 p1 p2 p3)"
  have "\<exists>es. ?h p0 = Some es \<and> (length es = 2 \<or> length es = 2048)
          \<and> (\<forall>e\<in>set es. e = zeroEntry)"
    by (simp add: newFixture_def L0_ENTRIES_def L1_ENTRIES_def L0_BITS_def L1_BITS_def)
  then obtain es where es: "?h p0 = Some es" "length es = 2 \<or> length es = 2048"
      "\<forall>e\<in>set es. e = zeroEntry"
    by blast
  have "readEntry ?h p0 (L0_INDEX (push_bit pageBits vp)) = Inr zeroEntry"
    using es L0_INDEX_less [of "push_bit pageBits vp"] by (auto simp: readEntry_def)
  then show ?thesis
    using assms
    by (simp add: performTranslation_def fixtureRoot_def Let_def and_then_def zeroEntry_def
        newFixture_def)
qed

lemma bit_stamping_test_value:
  "bit_stamping_test (newFixture 0x10000 0x14000 0x18000 0x1C000) 0x12345 0xABCDE
     = Inr ((Some 0xABCDE, True, False), (Some 0xABCDE, True, True))"
  by (simp add: bit_stamping_test_def performTranslation_def pt_defs newFixture_def and_then_def
      readEntry_def writeEntry_def zeroEntry_def setupValidMapping_def setupEntry_def
      fixtureRoot_def getAddress_def)

text \<open>
  C7 (a walk that fails returns false and changes no table entry).  A call of
  \<^verbatim>\<open>performTranslation\<close> that returns false hands back the memory it was given;
  it returns false whenever an interior slot on the way is invalid or not a table
  (no L3 slot is reached), and whenever the L3 slot reached is invalid.  On the
  cleared tables of a new fixture the pages 0, 1 and \<open>0xFFFF\<close> do not translate
  and the memory is the same afterwards.
\<close>

theorem performTranslation_failure_frame:
  "(performTranslation root h vp w = Inr (None, h') \<longrightarrow> h' = h)
   \<and> (root AND (pageTableAlign - 1) = 0 \<and> reachedL3 root h vp = Inr None
        \<longrightarrow> performTranslation root h vp w = Inr (None, h))
   \<and> (root AND (pageTableAlign - 1) = 0 \<and> reachedL3 root h vp = Inr (Some (t, i))
        \<and> readEntry h t i = Inr e \<and> \<not> valid e
        \<longrightarrow> performTranslation root h vp w = Inr (None, h))
   \<and> (p0 AND (pageTableAlign - 1) = 0 \<longrightarrow>
        performTranslation (fixtureRoot (newFixture p0 p1 p2 p3))
          (memory (newFixture p0 p1 p2 p3)) 0 False = Inr (None, memory (newFixture p0 p1 p2 p3))
      \<and> performTranslation (fixtureRoot (newFixture p0 p1 p2 p3))
          (memory (newFixture p0 p1 p2 p3)) 1 False = Inr (None, memory (newFixture p0 p1 p2 p3))
      \<and> performTranslation (fixtureRoot (newFixture p0 p1 p2 p3))
          (memory (newFixture p0 p1 p2 p3)) 0xFFFF False
            = Inr (None, memory (newFixture p0 p1 p2 p3)))"
proof (intro conjI impI)
  show "h' = h" if "performTranslation root h vp w = Inr (None, h')"
    using that by (rule performTranslation_false_frame)
  show "performTranslation root h vp w = Inr (None, h)"
    if "root AND (pageTableAlign - 1) = 0 \<and> reachedL3 root h vp = Inr None"
    using that by (simp add: performTranslation_reached and_then_def stampLeaf_def)
  show "performTranslation root h vp w = Inr (None, h)"
    if "root AND (pageTableAlign - 1) = 0 \<and> reachedL3 root h vp = Inr (Some (t, i))
        \<and> readEntry h t i = Inr e \<and> \<not> valid e"
    using that by (simp add: performTranslation_reached and_then_def stampLeaf_def)
qed (simp_all add: fresh_fixture_misses)

lemma fixture_next_page:
  "and_then (setupValidMapping (newFixture 0x10000 0x14000 0x18000 0x1C000) 0x12345 0xABCDE) (\<lambda>f.
     and_then (reachedL3 (fixtureRoot f) (memory f) 0x12346) (\<lambda>r.
     and_then (readEntry (memory f) 0x1C000 838) (\<lambda>e. Inr (fixtureRoot f, r, e))))
   = Inr (0x10000, Some (0x1C000, 838), zeroEntry)"
  by (simp add: reachedL3_def pt_defs newFixture_def and_then_def readEntry_def writeEntry_def
      zeroEntry_def setupValidMapping_def setupEntry_def fixtureRoot_def getAddress_def)

theorem performTranslation_failure_frame_witness:
  "performTranslation 0x10000 (memory (newFixture 0x10000 0x14000 0x18000 0x1C000)) 0 False
     = Inr (None, memory (newFixture 0x10000 0x14000 0x18000 0x1C000))
   \<and> reachedL3 0x10000 (memory (newFixture 0x10000 0x14000 0x18000 0x1C000)) 0 = Inr None
   \<and> (\<exists>f. setupValidMapping (newFixture 0x10000 0x14000 0x18000 0x1C000) 0x12345 0xABCDE = Inr f
         \<and> fixtureRoot f AND (pageTableAlign - 1) = 0
         \<and> reachedL3 (fixtureRoot f) (memory f) 0x12346 = Inr (Some (0x1C000, 838))
         \<and> readEntry (memory f) 0x1C000 838 = Inr zeroEntry \<and> \<not> valid zeroEntry
         \<and> performTranslation (fixtureRoot f) (memory f) 0x12346 False = Inr (None, memory f))"
proof -
  let ?fx = "newFixture 0x10000 0x14000 0x18000 0x1C000"
  have al: "(0x10000 :: u64) AND (pageTableAlign - 1) = 0"
    by (simp add: pt_defs)
  have none: "reachedL3 0x10000 (memory ?fx) 0 = Inr None"
    by (simp add: reachedL3_def pt_defs newFixture_def and_then_def readEntry_def zeroEntry_def)
  have miss: "performTranslation 0x10000 (memory ?fx) 0 False = Inr (None, memory ?fx)"
    using performTranslation_failure_frame [of "0x10000" "memory ?fx" 0 False] al none
    by blast
  obtain f where f: "setupValidMapping ?fx 0x12345 0xABCDE = Inr f"
    and root: "fixtureRoot f = 0x10000"
    and r: "reachedL3 (fixtureRoot f) (memory f) 0x12346 = Inr (Some (0x1C000, 838))"
    and e: "readEntry (memory f) 0x1C000 838 = Inr zeroEntry"
    using fixture_next_page by (auto simp: and_then_Inr)
  have inv: "\<not> valid zeroEntry" by (simp add: zeroEntry_def)
  have "performTranslation (fixtureRoot f) (memory f) 0x12346 False = Inr (None, memory f)"
    using performTranslation_failure_frame
            [of "fixtureRoot f" "memory f" "0x12346" False _ "0x1C000" 838 zeroEntry]
          al root r e inv
    by simp
  with miss none f al root r e inv show ?thesis by auto
qed

text \<open>
  C6 (bit stamping).  When \<^verbatim>\<open>performTranslation\<close> succeeds, the page it returns
  is the page number stored in the L3 entry the walk reaches, and the memory
  afterwards is the memory before with that one entry changed: \<^verbatim>\<open>referenced\<close> is
  set, \<^verbatim>\<open>dirty\<close> is set on a write and keeps its value on a read.  With the
  mapping \<open>0x12345 \<mapsto> 0xABCDE\<close> set up, a read translation returns \<open>0xABCDE\<close>
  and leaves \<open>referenced = 1\<close>, \<open>dirty = 0\<close>; the write translation that follows
  returns \<open>0xABCDE\<close> and leaves \<open>dirty = 1\<close>.
\<close>

theorem performTranslation_stamps_leaf:
  "(performTranslation root h vp w = Inr (Some p, h') \<longrightarrow>
      (\<exists>t i es. reachedL3 root h vp = Inr (Some (t, i)) \<and> h t = Some es \<and> unat i < length es
         \<and> valid (es ! unat i) \<and> p = ucast (physicalPageNum (es ! unat i))
         \<and> h' = h(t \<mapsto> es[unat i := (es ! unat i)\<lparr>referenced := True,
                                      dirty := (w \<or> dirty (es ! unat i))\<rparr>])))
   \<and> bit_stamping_test (newFixture 0x10000 0x14000 0x18000 0x1C000) 0x12345 0xABCDE
       = Inr ((Some 0xABCDE, True, False), (Some 0xABCDE, True, True))"
  using performTranslation_success [of root h vp w p h'] bit_stamping_test_value
  by blast

theorem performTranslation_stamps_leaf_witness:
  "\<exists>f h1. setupValidMapping (newFixture 0x10000 0x14000 0x18000 0x1C000) 0x12345 0xABCDE = Inr f
      \<and> performTranslation (fixtureRoot f) (memory f) 0x12345 False = Inr (Some 0xABCDE, h1)
      \<and> (\<exists>t i es. reachedL3 (fixtureRoot f) (memory f) 0x12345 = Inr (Some (t, i))
            \<and> memory f t = Some es \<and> unat i < length es \<and> valid (es ! unat i)
            \<and> 0xABCDE = (ucast (physicalPageNum (es ! unat i)) :: u64)
            \<and> h1 = (memory f)(t \<mapsto> es[unat i := (es ! unat i)\<lparr>referenced := True,
                                        dirty := (False \<or> dirty (es ! unat i))\<rparr>]))"
proof -
  obtain f p1 h1
    where f: "setupValidMapping (newFixture 0x10000 0x14000 0x18000 0x1C000) 0x12345 0xABCDE = Inr f"
      and t: "performTranslation (fixtureRoot f) (memory f) 0x12345 False = Inr (p1, h1)"
      and p1: "p1 = Some 0xABCDE"
    using bit_stamping_test_value
    by (auto simp: bit_stamping_test_def and_then_Inr)
  from t p1 have t': "performTranslation (fixtureRoot f) (memory f) 0x12345 False
      = Inr (Some 0xABCDE, h1)"
    by simp
  from performTranslation_stamps_leaf [of "fixtureRoot f" "memory f" "0x12345" False "0xABCDE" h1] t'
  have "\<exists>t i es. reachedL3 (fixtureRoot f) (memory f) 0x12345 = Inr (Some (t, i))
            \<and> memory f t = Some es \<and> unat i < length es \<and> valid (es ! unat i)
            \<and> 0xABCDE = (ucast (physicalPageNum (es ! unat i)) :: u64)
            \<and> h1 = (memory f)(t \<mapsto> es[unat i := (es ! unat i)\<lparr>referenced := True,
                                        dirty := (False \<or> dirty (es ! unat i))\<rparr>])"
    by blast
  with f t' show ?thesis by blast
qed

section \<open>The driver\<close>

lemmas driver_defs = allocatePageTable_def allocateTable_def allocateMemory_def bootDriver_def
  setHostKernel_def newDriver_def and_then_def getPageTable_def getBytesAllocated_def pt_defs
  sizeof_SimpleTableEntry_def setMapping_def getOrCreateTable_def allocatePageTableLevel_def
  driverRead_def driverWrite_def readEntry_def writeEntry_def zeroEntry_def initTableEntry_def
  getAddress_def

lemma allocateTable_Inr:
  "allocateTable d n = Inr (p, d') \<longleftrightarrow>
     (\<exists>k ps. kernel d = Some k \<and> pool k = p # ps
        \<and> d' = d\<lparr>bytesAllocated := bytesAllocated d + n * sizeof_SimpleTableEntry,
                  kernel := Some (k\<lparr>pool := ps,
                                    tables := (tables k)(p \<mapsto> replicate (unat n) zeroEntry)\<rparr>)\<rparr>)"
  by (auto simp: allocateTable_def allocateMemory_def and_then_def
      split: option.splits list.splits)

lemma allocatePageTable_Inr:
  "allocatePageTable d PID = Inr d' \<longleftrightarrow>
     (\<exists>k p ps. kernel d = Some k \<and> pool k = p # ps
        \<and> d' = d\<lparr>bytesAllocated := bytesAllocated d + 16,
                  kernel := Some (k\<lparr>pool := ps,
                                    tables := (tables k)(p \<mapsto> replicate 2 zeroEntry)\<rparr>),
                  pageTables := (pageTables d)(PID \<mapsto> p)\<rparr>)"
  by (auto simp: allocatePageTable_def and_then_Inr allocateTable_Inr L0_ENTRIES_def L0_BITS_def
      sizeof_SimpleTableEntry_def)

lemma allocatePageTable_Inl:
  "allocatePageTable d PID = Inl e \<longleftrightarrow>
     (kernel d = None \<and> e = OutOfBounds)
     \<or> (\<exists>k. kernel d = Some k \<and> pool k = [] \<and> e = RuntimeError ''kernel: out of memory'')"
  by (auto simp: allocatePageTable_def allocateTable_def allocateMemory_def and_then_def
      split: option.splits list.splits)

lemma driverWrite_bytes:
  "driverWrite d t i e = Inr d' \<Longrightarrow>
     bytesAllocated d' = bytesAllocated d \<and> poolSize d' = poolSize d"
  by (auto simp: driverWrite_def and_then_Inr poolSize_def split: option.splits)

lemma getOrCreateTable_bytes:
  "getOrCreateTable d t i = Inr (p, d') \<Longrightarrow>
     (bytesAllocated d' = bytesAllocated d \<and> poolSize d' = poolSize d)
     \<or> (bytesAllocated d' = bytesAllocated d + 16384 \<and> Suc (poolSize d') = poolSize d)"
  by (auto simp: getOrCreateTable_def and_then_Inr allocatePageTableLevel_def allocateTable_Inr
        L1_ENTRIES_def L1_BITS_def sizeof_SimpleTableEntry_def poolSize_def
      split: if_splits dest!: driverWrite_bytes)

lemma setMapping_Inr:
  "setMapping d PID va pg = Inr (d', pg') \<longleftrightarrow>
     (\<exists>root t1 d1 t2 d2 t3 d3. pageTables d PID = Some root
        \<and> getOrCreateTable d root (L0_INDEX (va AND (push_bit addressSpaceBits 1 - 1))) = Inr (t1, d1)
        \<and> getOrCreateTable d1 t1 (L1_INDEX (va AND (push_bit addressSpaceBits 1 - 1))) = Inr (t2, d2)
        \<and> getOrCreateTable d2 t2 (L2_INDEX (va AND (push_bit addressSpaceBits 1 - 1))) = Inr (t3, d3)
        \<and> driverWrite d3 t3 (L3_INDEX (va AND (push_bit addressSpaceBits 1 - 1)))
              (initTableEntry (addr pg) False) = Inr d'
        \<and> pg' = pg\<lparr>driverData := Some (t3, L3_INDEX (va AND (push_bit addressSpaceBits 1 - 1)))\<rparr>)"
  by (cases "pageTables d PID") (simp_all add: setMapping_def Let_def and_then_Inr, blast)

lemma grow_step:
  assumes "(b1 = b \<and> s1 = s) \<or> (b1 = b + 16384 \<and> Suc s1 = s)"
  shows "(b1 :: u64) = b + 16384 * of_nat (s - s1) \<and> s1 \<le> s \<and> s - s1 \<le> 1"
  using assms by auto

lemma setMapping_bytes:
  assumes "setMapping d PID va pg = Inr (d', pg')"
  shows "bytesAllocated d' = bytesAllocated d + 16384 * of_nat (poolSize d - poolSize d')
         \<and> poolSize d' \<le> poolSize d \<and> poolSize d - poolSize d' \<le> 3"
proof -
  from assms obtain root t1 d1 t2 d2 t3 d3 where
    g1: "getOrCreateTable d root (L0_INDEX (va AND (push_bit addressSpaceBits 1 - 1))) = Inr (t1, d1)" and
    g2: "getOrCreateTable d1 t1 (L1_INDEX (va AND (push_bit addressSpaceBits 1 - 1))) = Inr (t2, d2)" and
    g3: "getOrCreateTable d2 t2 (L2_INDEX (va AND (push_bit addressSpaceBits 1 - 1))) = Inr (t3, d3)" and
    w: "driverWrite d3 t3 (L3_INDEX (va AND (push_bit addressSpaceBits 1 - 1)))
          (initTableEntry (addr pg) False) = Inr d'"
    unfolding setMapping_Inr by blast
  define n1 where "n1 = poolSize d - poolSize d1"
  define n2 where "n2 = poolSize d1 - poolSize d2"
  define n3 where "n3 = poolSize d2 - poolSize d3"
  note s1 = grow_step [OF getOrCreateTable_bytes [OF g1], folded n1_def]
  note s2 = grow_step [OF getOrCreateTable_bytes [OF g2], folded n2_def]
  note s3 = grow_step [OF getOrCreateTable_bytes [OF g3], folded n3_def]
  note s4 = driverWrite_bytes [OF w]
  have eq: "poolSize d - poolSize d' = n1 + n2 + n3"
    using s1 s2 s3 s4 by (simp add: n1_def n2_def n3_def)
  have "bytesAllocated d' = bytesAllocated d3" using s4 by simp
  also have "\<dots> = bytesAllocated d2 + 16384 * of_nat n3" using s3 by simp
  also have "\<dots> = bytesAllocated d1 + 16384 * of_nat n2 + 16384 * of_nat n3" using s2 by simp
  also have "\<dots> = bytesAllocated d + 16384 * of_nat n1 + 16384 * of_nat n2 + 16384 * of_nat n3"
    using s1 by simp
  also have "\<dots> = bytesAllocated d + 16384 * of_nat (n1 + n2 + n3)"
    by (simp add: algebra_simps)
  finally have "bytesAllocated d' = bytesAllocated d + 16384 * of_nat (poolSize d - poolSize d')"
    unfolding eq .
  moreover have "poolSize d' \<le> poolSize d"
    using s1 s2 s3 s4 by simp
  moreover have "poolSize d - poolSize d' \<le> 3"
    unfolding eq using s1 s2 s3 by simp
  ultimately show ?thesis by simp
qed

lemma releasePageTable_bytes:
  "releasePageTable d PID = Inr d' \<Longrightarrow> bytesAllocated d' = bytesAllocated d"
  by (auto simp: releasePageTable_def and_then_Inr split: option.splits)

lemma setPageValid_bytes:
  "setPageValid d pg b = Inr d' \<Longrightarrow> bytesAllocated d' = bytesAllocated d"
  by (auto simp: setPageValid_def and_then_Inr split: option.splits if_splits
      dest: driverWrite_bytes)

lemma run_op_bytes:
  assumes "run_op d x = Inr d'"
  shows "\<exists>n\<le>49152. bytesAllocated d' = bytesAllocated d + of_nat n"
proof (cases x)
  case (AllocatePageTable PID)
  with assms have "bytesAllocated d' = bytesAllocated d + of_nat 16"
    by (auto simp: allocatePageTable_Inr)
  then show ?thesis by (intro exI [of _ 16]) simp
next
  case (ReleasePageTable PID)
  with assms have "bytesAllocated d' = bytesAllocated d + of_nat 0"
    by (auto dest: releasePageTable_bytes)
  then show ?thesis by (intro exI [of _ 0]) simp
next
  case (SetMapping PID va pg)
  with assms obtain pg' where "setMapping d PID va pg = Inr (d', pg')"
    by (auto simp: and_then_Inr)
  from setMapping_bytes [OF this]
  have b: "bytesAllocated d' = bytesAllocated d + of_nat (16384 * (poolSize d - poolSize d'))"
    and le: "poolSize d - poolSize d' \<le> 3"
    by simp_all
  from le have "16384 * (poolSize d - poolSize d') \<le> 49152" by simp
  with b show ?thesis by blast
next
  case (SetPageValid pg b)
  with assms have "bytesAllocated d' = bytesAllocated d + of_nat 0"
    by (auto dest: setPageValid_bytes)
  then show ?thesis by (intro exI [of _ 0]) simp
qed

lemma u64_add_nat_le:
  assumes "unat (b :: u64) + n < 2 ^ 64"
  shows "unat (b + of_nat n) = unat b + n"
  using assms by (simp add: unat_word_ariths unat_of_nat)

lemma run_ops_bytes:
  "run_ops d xs = Inr d' \<Longrightarrow> unat (bytesAllocated d) + 49152 * length xs < 2 ^ 64 \<Longrightarrow>
     unat (bytesAllocated d) \<le> unat (bytesAllocated d')
     \<and> unat (bytesAllocated d') \<le> unat (bytesAllocated d) + 49152 * length xs"
proof (induction xs arbitrary: d)
  case Nil
  then show ?case by simp
next
  case (Cons x xs)
  from Cons.prems(1) obtain d1 where x: "run_op d x = Inr d1" and xs: "run_ops d1 xs = Inr d'"
    by (auto simp: and_then_Inr)
  from run_op_bytes [OF x] obtain n where n: "n \<le> 49152"
    and b: "bytesAllocated d1 = bytesAllocated d + of_nat n"
    by blast
  from Cons.prems(2) n have "unat (bytesAllocated d) + n < 2 ^ 64" by simp
  then have u: "unat (bytesAllocated d1) = unat (bytesAllocated d) + n"
    unfolding b by (rule u64_add_nat_le)
  with Cons.prems(2) n have "unat (bytesAllocated d1) + 49152 * length xs < 2 ^ 64" by simp
  from Cons.IH [OF xs this] u n show ?case by simp
qed

lemma allocateTwice_value: "allocateTwice [0x10000, 0x14000] 1 = Inr (0x10000, 0x14000, 32)"
  by (simp add: allocateTwice_def driver_defs)

lemma map_and_walk_value:
  "map_and_walk [0x10000, 0x14000, 0x18000, 0x1C000] 1 0x48D14ABC
     \<lparr>addr = 0x2AF378000, driverData = None\<rparr> False
   = Inr (Some 0xABCDE, 49168, Some (0x1C000, 837))"
  by (simp add: map_and_walk_def driver_defs performTranslation_def)

lemma alloc_release_value:
  "and_then (run_ops (bootDriver [0x10000]) [AllocatePageTable 1, ReleasePageTable 1])
     (\<lambda>d. Inr (getBytesAllocated d, getPageTable d 1))
   = Inr (16, 0)"
  by (simp add: driver_defs releasePageTable_def releaseMemory_def)

text \<open>
  C9 as stated (a second \<^verbatim>\<open>allocatePageTable\<close> for a process that has a page
  table aborts and leaves the binding alone) fails: on a driver whose kernel hands
  out \<open>0x10000\<close> and then \<open>0x14000\<close>, the second call for process 1 returns
  normally, the root of process 1 is \<open>0x14000\<close> instead of \<open>0x10000\<close>, and 32
  bytes are counted.
\<close>

theorem allocateTwice_replaces_root:
  "allocateTwice [0x10000, 0x14000] 1 = Inr (0x10000, 0x14000, 32)
   \<and> (0x10000 :: u64) \<noteq> 0x14000"
  using allocateTwice_value by simp

text \<open>
  C9, amended: \<^verbatim>\<open>allocatePageTable\<close> does not look the process up.  For a
  process that already has a page table the call succeeds whenever the kernel
  returns memory: a new cleared L0 table of two entries is allocated, 16 bytes are
  added to the byte count, and the binding of the process is replaced by the new
  root; the table of the old root is not released.  The call fails only when the
  driver has no kernel or the kernel has no memory left.
\<close>

theorem allocatePageTable_rebinds:
  "(pageTables d PID = Some r \<and> kernel d = Some k \<and> pool k = p # ps \<longrightarrow>
      allocatePageTable d PID
        = Inr (d\<lparr>bytesAllocated := bytesAllocated d + 16,
                 kernel := Some (k\<lparr>pool := ps,
                                   tables := (tables k)(p \<mapsto> replicate 2 zeroEntry)\<rparr>),
                 pageTables := (pageTables d)(PID \<mapsto> p)\<rparr>))
   \<and> (pageTables d PID = Some r \<and> allocatePageTable d PID = Inl e \<longrightarrow>
        kernel d = None \<or> (\<exists>k. kernel d = Some k \<and> pool k = []))"
  by (auto simp: allocatePageTable_Inr allocatePageTable_Inl)

theorem allocatePageTable_rebinds_witness:
  "\<exists>d1 k1 d2. allocatePageTable (bootDriver [0x10000, 0x14000]) 1 = Inr d1
     \<and> pageTables d1 1 = Some 0x10000 \<and> kernel d1 = Some k1 \<and> pool k1 = [0x14000]
     \<and> allocatePageTable d1 1 = Inr d2 \<and> pageTables d2 1 = Some 0x14000
     \<and> bytesAllocated d2 = 32
     \<and> allocatePageTable (d2\<lparr>kernel := None\<rparr>) 1 = Inl OutOfBounds"
proof -
  obtain d1 k1 where d1: "allocatePageTable (bootDriver [0x10000, 0x14000]) 1 = Inr d1"
    and r1: "pageTables d1 1 = Some 0x10000" and k1: "kernel d1 = Some k1"
    and p1: "pool k1 = [0x14000]" and b1: "bytesAllocated d1 = 16"
    by (simp add: allocatePageTable_Inr bootDriver_def setHostKernel_def newDriver_def)
  let ?d2 = "d1\<lparr>bytesAllocated := bytesAllocated d1 + 16,
                 kernel := Some (k1\<lparr>pool := [],
                                    tables := (tables k1)(0x14000 \<mapsto> replicate 2 zeroEntry)\<rparr>),
                 pageTables := (pageTables d1)(1 \<mapsto> 0x14000)\<rparr>"
  have d2: "allocatePageTable d1 1 = Inr ?d2"
    using allocatePageTable_rebinds [of d1 1 "0x10000" k1 "0x14000" "[]"] r1 k1 p1 by simp
  have "pageTables (?d2\<lparr>kernel := None\<rparr>) 1 = Some 0x14000" by simp
  moreover have "allocatePageTable (?d2\<lparr>kernel := None\<rparr>) 1 = Inl OutOfBounds"
    by (simp add: allocatePageTable_Inl)
  ultimately have "kernel (?d2\<lparr>kernel := None\<rparr>) = None"
    using allocatePageTable_rebinds [of "?d2\<lparr>kernel := None\<rparr>" 1 "0x14000" _ _ _ OutOfBounds]
    by simp
  then have "allocatePageTable (?d2\<lparr>kernel := None\<rparr>) 1 = Inl OutOfBounds"
    by (simp add: allocatePageTable_Inl)
  moreover have "pageTables ?d2 1 = Some 0x14000" "bytesAllocated ?d2 = 32"
    using b1 by simp_all
  ultimately show ?thesis using d1 r1 k1 p1 d2 by blast
qed

text \<open>
  C10 (the byte count of the driver never decreases).  \<^verbatim>\<open>allocatePageTable\<close>
  adds the size of an L0 table, every table \<^verbatim>\<open>allocatePageTableLevel\<close> creates
  adds the size of a 2048-entry table, so \<^verbatim>\<open>setMapping\<close> adds that size once
  for each of the at most three tables it takes from the kernel;
  \<^verbatim>\<open>releasePageTable\<close> and \<^verbatim>\<open>setPageValid\<close> leave the count as it is.  Over
  any sequence of calls the 64-bit count does not decrease as long as it does not
  wrap around, that is, while the total stays below \<open>2 ^ 64\<close>.
\<close>

theorem bytesAllocated_monotone:
  "(allocatePageTable d PID = Inr d' \<longrightarrow>
      bytesAllocated d' = bytesAllocated d + L0_ENTRIES * sizeof_SimpleTableEntry)
   \<and> (allocatePageTableLevel d = Inr (p, d') \<longrightarrow>
        bytesAllocated d' = bytesAllocated d + L1_ENTRIES * sizeof_SimpleTableEntry)
   \<and> (setMapping d PID va pg = Inr (d', pg') \<longrightarrow>
        bytesAllocated d' = bytesAllocated d
           + L1_ENTRIES * sizeof_SimpleTableEntry * of_nat (poolSize d - poolSize d')
        \<and> poolSize d - poolSize d' \<le> 3)
   \<and> (releasePageTable d PID = Inr d' \<longrightarrow> bytesAllocated d' = bytesAllocated d)
   \<and> (setPageValid d pg b = Inr d' \<longrightarrow> bytesAllocated d' = bytesAllocated d)
   \<and> (run_ops d xs = Inr d' \<and> unat (bytesAllocated d) + 49152 * length xs < 2 ^ 64 \<longrightarrow>
        bytesAllocated d \<le> bytesAllocated d')"
proof (intro conjI impI)
  show "bytesAllocated d' = bytesAllocated d + L0_ENTRIES * sizeof_SimpleTableEntry"
    if "allocatePageTable d PID = Inr d'"
    using that
    by (auto simp: allocatePageTable_Inr L0_ENTRIES_def L0_BITS_def sizeof_SimpleTableEntry_def)
  show "bytesAllocated d' = bytesAllocated d + L1_ENTRIES * sizeof_SimpleTableEntry"
    if "allocatePageTableLevel d = Inr (p, d')"
    using that by (auto simp: allocatePageTableLevel_def allocateTable_Inr)
  show "bytesAllocated d' = bytesAllocated d
          + L1_ENTRIES * sizeof_SimpleTableEntry * of_nat (poolSize d - poolSize d')"
    if "setMapping d PID va pg = Inr (d', pg')"
    using setMapping_bytes [OF that]
    by (simp add: L1_ENTRIES_def L1_BITS_def sizeof_SimpleTableEntry_def)
  show "poolSize d - poolSize d' \<le> 3" if "setMapping d PID va pg = Inr (d', pg')"
    using setMapping_bytes [OF that] by simp
  show "bytesAllocated d' = bytesAllocated d" if "releasePageTable d PID = Inr d'"
    using that by (rule releasePageTable_bytes)
  show "bytesAllocated d' = bytesAllocated d" if "setPageValid d pg b = Inr d'"
    using that by (rule setPageValid_bytes)
  show "bytesAllocated d \<le> bytesAllocated d'"
    if "run_ops d xs = Inr d' \<and> unat (bytesAllocated d) + 49152 * length xs < 2 ^ 64"
    using run_ops_bytes [of d xs d'] that by (simp add: word_le_nat_alt)
qed

lemma map_steps_value:
  "and_then (allocatePageTable (bootDriver [0x10000, 0x14000, 0x18000, 0x1C000]) 1) (\<lambda>d1.
   and_then (setMapping d1 1 0x48D14ABC \<lparr>addr = 0x2AF378000, driverData = None\<rparr>) (\<lambda>(d2, pg').
   and_then (setPageValid d2 pg' False) (\<lambda>d3.
     Inr (poolSize d1 - poolSize d2, driverData pg'))))
   = Inr (3, Some (0x1C000, 837))"
  by (simp add: driver_defs setPageValid_def poolSize_def)

theorem bytesAllocated_monotone_witness:
  "\<exists>d1 d2 pg' d3 dL d4 d5.
     allocatePageTable (bootDriver [0x10000, 0x14000, 0x18000, 0x1C000]) 1 = Inr d1
   \<and> bytesAllocated d1 = 16
   \<and> setMapping d1 1 0x48D14ABC \<lparr>addr = 0x2AF378000, driverData = None\<rparr> = Inr (d2, pg')
   \<and> poolSize d1 - poolSize d2 = 3 \<and> bytesAllocated d2 = 16 + 3 * 16384
   \<and> setPageValid d2 pg' False = Inr d3 \<and> bytesAllocated d3 = 16 + 3 * 16384
   \<and> allocatePageTableLevel (bootDriver [0x10000]) = Inr (0x10000, dL)
   \<and> bytesAllocated dL = 16384
   \<and> allocatePageTable (bootDriver [0x10000]) 1 = Inr d4 \<and> releasePageTable d4 1 = Inr d5
   \<and> bytesAllocated d5 = 16
   \<and> run_ops (bootDriver [0x10000]) [AllocatePageTable 1, ReleasePageTable 1] = Inr d5
   \<and> unat (bytesAllocated (bootDriver [0x10000])) + 49152 * length [AllocatePageTable 1, ReleasePageTable 1] < 2 ^ 64
   \<and> bytesAllocated (bootDriver [0x10000]) \<le> bytesAllocated d5"
proof -
  note mono = bytesAllocated_monotone
  have b0: "bytesAllocated (bootDriver ps) = 0" for ps
    by (simp add: bootDriver_def setHostKernel_def newDriver_def)
  have sz: "L0_ENTRIES * sizeof_SimpleTableEntry = 16" "L1_ENTRIES * sizeof_SimpleTableEntry = 16384"
    by (simp_all add: pt_defs sizeof_SimpleTableEntry_def)
  obtain d1 d2 pg' d3
    where a1: "allocatePageTable (bootDriver [0x10000, 0x14000, 0x18000, 0x1C000]) 1 = Inr d1"
      and a2: "setMapping d1 1 0x48D14ABC \<lparr>addr = 0x2AF378000, driverData = None\<rparr> = Inr (d2, pg')"
      and a3: "setPageValid d2 pg' False = Inr d3"
      and n: "poolSize d1 - poolSize d2 = 3"
    using map_steps_value by (auto simp: and_then_Inr)
  from mono [of "bootDriver [0x10000, 0x14000, 0x18000, 0x1C000]" 1 d1] a1
  have c1: "bytesAllocated d1 = 16" by (simp add: b0 sz)
  from mono [of d1 1 d2 _ "0x48D14ABC" "\<lparr>addr = 0x2AF378000, driverData = None\<rparr>" pg'] a2
  have c2: "bytesAllocated d2 = 16 + 3 * 16384" by (simp add: c1 sz n)
  from mono [of d2 _ d3 _ _ pg' _ False] a3
  have c3: "bytesAllocated d3 = 16 + 3 * 16384" by (simp add: c2)
  obtain dL where aL: "allocatePageTableLevel (bootDriver [0x10000]) = Inr (0x10000, dL)"
    by (simp add: allocatePageTableLevel_def allocateTable_Inr bootDriver_def setHostKernel_def
        newDriver_def)
  from mono [of "bootDriver [0x10000]" _ dL "0x10000"] aL
  have cL: "bytesAllocated dL = 16384" by (simp add: b0 sz)
  obtain d5 where r: "run_ops (bootDriver [0x10000]) [AllocatePageTable 1, ReleasePageTable 1] = Inr d5"
    using alloc_release_value by (auto simp: and_then_Inr)
  then obtain d4 where a4: "allocatePageTable (bootDriver [0x10000]) 1 = Inr d4"
    and a5: "releasePageTable d4 1 = Inr d5"
    by (auto simp: and_then_Inr)
  from mono [of "bootDriver [0x10000]" 1 d4] a4 have c4: "bytesAllocated d4 = 16"
    by (simp add: b0 sz)
  from mono [of d4 1 d5] a5 c4 have c5: "bytesAllocated d5 = 16" by simp
  have bound: "unat (bytesAllocated (bootDriver [0x10000]))
      + 49152 * length [AllocatePageTable 1, ReleasePageTable 1] < 2 ^ 64"
    by (simp add: b0)
  from mono [of "bootDriver [0x10000]" _ d5 _ _ _ _ _ "[AllocatePageTable 1, ReleasePageTable 1]"] r bound
  have c6: "bytesAllocated (bootDriver [0x10000]) \<le> bytesAllocated d5" by blast
  from a1 c1 a2 n c2 a3 c3 aL cL a4 a5 c5 r bound c6 show ?thesis by blast
qed

section \<open>Mapping a page and walking to it\<close>

lemma drop_page: "14 \<le> n \<Longrightarrow> drop_bit n (push_bit 14 (drop_bit 14 (v :: u64))) = drop_bit n v"
  by (intro bit_word_eqI) (auto simp: bit_simps dest: bit_imp_le_length)

lemma index_of_page:
  "L0_INDEX (push_bit pageBits (drop_bit pageBits v)) = L0_INDEX v"
  "L1_INDEX (push_bit pageBits (drop_bit pageBits v)) = L1_INDEX v"
  "L2_INDEX (push_bit pageBits (drop_bit pageBits v)) = L2_INDEX v"
  "L3_INDEX (push_bit pageBits (drop_bit pageBits v)) = L3_INDEX v"
  unfolding pt_defs by (simp_all add: drop_page)

lemma high_bits_clear:
  assumes "(p :: u64) < 2 ^ 48" and "bit p n"
  shows "n < 48"
proof -
  have "p AND mask 48 = p" using assms(1) by (simp add: less_mask_eq)
  then have "bit (p AND mask 48) n" using assms(2) by simp
  then show ?thesis by (simp add: bit_and_iff bit_mask_iff)
qed

lemma low_bits_clear:
  assumes "(p :: u64) AND (pageTableAlign - 1) = 0" and "bit p n"
  shows "14 \<le> n"
proof (rule ccontr)
  assume "\<not> 14 \<le> n"
  then have "n < 14" by simp
  have "p AND mask 14 = 0" using assms(1) by (simp add: pt_defs mask_eq_exp_minus_1)
  moreover have "bit (p AND mask 14) n" using assms(2) \<open>n < 14\<close> by (simp add: bit_and_iff bit_mask_iff)
  ultimately show False by simp
qed

lemma getAddress_init_table:
  assumes "p AND (pageTableAlign - 1) = 0" and "p < 2 ^ 48"
  shows "getAddress (initTableEntry p b) = p"
proof -
  have "bit (push_bit 14 (ucast (ucast (drop_bit 14 p :: u64) :: 34 word) :: u64)) n = bit p n"
    for n
  proof (cases "bit p n")
    case True
    from low_bits_clear [OF assms(1) True] high_bits_clear [OF assms(2) True]
    have "14 \<le> n" "n < 48" by simp_all
    then have "n - 14 < 34" "n - 14 < 64" "14 + (n - 14) = n" by simp_all
    with True \<open>14 \<le> n\<close> \<open>n < 48\<close> show ?thesis by (simp add: bit_simps)
  next
    case False
    then show ?thesis by (auto simp: bit_simps)
  qed
  then show ?thesis
    unfolding getAddress_def initTableEntry_def pageBits_def
    by (intro bit_word_eqI) simp
qed

lemma leaf_page_roundtrip:
  assumes "a < 2 ^ 48"
  shows "(ucast (physicalPageNum (initTableEntry a b)) :: u64) = drop_bit pageBits a"
  unfolding initTableEntry_def pageBits_def
  by (intro bit_word_eqI) (auto simp: bit_simps dest: high_bits_clear [OF assms])


lemma typedD:
  "typed lvl h \<Longrightarrow> h t = Some es \<Longrightarrow> lvl t < 3 \<Longrightarrow> e \<in> set es \<Longrightarrow> valid e \<Longrightarrow>
     etype e \<and> lvl (getAddress e) = Suc (lvl t)
     \<and> (\<exists>es'. h (getAddress e) = Some es' \<and> length es' = 2048)"
  unfolding typed_def by blast

lemma pool_ok_Suc: "pool_ok (Suc n) k \<Longrightarrow> pool_ok n k"
  unfolding pool_ok_def
  by (auto simp: take_Suc_conv_app_nth)

lemma pool_ok_hd:
  assumes "pool_ok (Suc n) k"
  obtains p ps where "pool k = p # ps" "tables k p = None" "p AND (pageTableAlign - 1) = 0"
    "p < 2 ^ 48" "p \<notin> set (take n ps)" "distinct (take n ps)" "n \<le> length ps"
    "\<forall>q \<in> set (take n ps). tables k q = None \<and> q AND (pageTableAlign - 1) = 0 \<and> q < 2 ^ 48"
proof -
  from assms obtain p ps where ps: "pool k = p # ps"
    unfolding pool_ok_def by (cases "pool k") auto
  with assms that show thesis
    unfolding pool_ok_def by auto
qed

lemma getOrCreateTable_existing:
  assumes "kernel d = Some k" "tables k t = Some es" "unat i < length es"
    "valid (es ! unat i)" "etype (es ! unat i)"
  shows "getOrCreateTable d t i = Inr (getAddress (es ! unat i), d)"
  using assms by (simp add: getOrCreateTable_def driverRead_def readEntry_def and_then_def)

lemma getOrCreateTable_create:
  assumes "kernel d = Some k" "tables k t = Some es" "unat i < length es"
    "\<not> valid (es ! unat i)" "pool k = p # ps" "t \<noteq> p"
  shows "getOrCreateTable d t i
    = Inr (p, d\<lparr>bytesAllocated := bytesAllocated d + L1_ENTRIES * sizeof_SimpleTableEntry,
                kernel := Some (k\<lparr>pool := ps,
                   tables := (tables k)(p \<mapsto> replicate (unat L1_ENTRIES) zeroEntry,
                                        t \<mapsto> es[unat i := initTableEntry p True])\<rparr>)\<rparr>)"
  using assms
  by (simp add: getOrCreateTable_def driverRead_def readEntry_def and_then_def
      allocatePageTableLevel_def allocateTable_def allocateMemory_def driverWrite_def
      writeEntry_def)


lemma unat_L1_ENTRIES: "unat L1_ENTRIES = 2048"
  by (simp add: L1_ENTRIES_def L1_BITS_def)

lemma getOrCreateTable_step:
  assumes k: "kernel d = Some k" and ty: "typed lvl (tables k)"
    and t: "tables k t = Some es" and i: "unat i < length es" and l: "lvl t < 3"
    and pool: "pool_ok (Suc n) k"
  shows "\<exists>c d' k' lvl'. getOrCreateTable d t i = Inr (c, d') \<and> kernel d' = Some k'
     \<and> pageTables d' = pageTables d
     \<and> typed lvl' (tables k') \<and> pool_ok n k'
     \<and> lvl' c = Suc (lvl t) \<and> (\<forall>x. tables k x \<noteq> None \<longrightarrow> lvl' x = lvl x)
     \<and> (\<exists>esc. tables k' c = Some esc \<and> length esc = 2048)
     \<and> (\<exists>es'. tables k' t = Some es' \<and> length es' = length es \<and> valid (es' ! unat i)
            \<and> etype (es' ! unat i) \<and> getAddress (es' ! unat i) = c)
     \<and> (\<forall>x esx. tables k x = Some esx \<and> x \<noteq> t \<longrightarrow> tables k' x = Some esx)
     \<and> (\<forall>x esx. tables k x = Some esx \<longrightarrow>
            (\<exists>esx'. tables k' x = Some esx' \<and> length esx' = length esx))"
proof (cases "valid (es ! unat i)")
  case True
  let ?e = "es ! unat i"
  have mem: "?e \<in> set es" using i by simp
  from typedD [OF ty t l mem True]
  obtain esc where e: "etype ?e" "lvl (getAddress ?e) = Suc (lvl t)"
    and c: "tables k (getAddress ?e) = Some esc" "length esc = 2048"
    by blast
  have g: "getOrCreateTable d t i = Inr (getAddress ?e, d)"
    using k t i True e(1) by (rule getOrCreateTable_existing)
  show ?thesis
    using g k ty pool_ok_Suc [OF pool] e(2) c t True e(1)
    by (intro exI [of _ "getAddress ?e"] exI [of _ d] exI [of _ k] exI [of _ lvl]) simp
next
  case False
  from pool obtain p ps where ps: "pool k = p # ps" and fresh: "tables k p = None"
    and al: "p AND (pageTableAlign - 1) = 0" and small: "p < 2 ^ 48"
    and rest: "p \<notin> set (take n ps)" "distinct (take n ps)" "n \<le> length ps"
      "\<forall>q \<in> set (take n ps). tables k q = None \<and> q AND (pageTableAlign - 1) = 0 \<and> q < 2 ^ 48"
    by (rule pool_ok_hd)
  have tp: "t \<noteq> p" using t fresh by auto
  let ?new = "initTableEntry p True"
  let ?h' = "(tables k)(p \<mapsto> replicate (unat L1_ENTRIES) zeroEntry, t \<mapsto> es[unat i := ?new])"
  let ?k' = "k\<lparr>pool := ps, tables := ?h'\<rparr>"
  let ?d' = "d\<lparr>bytesAllocated := bytesAllocated d + L1_ENTRIES * sizeof_SimpleTableEntry,
               kernel := Some ?k'\<rparr>"
  let ?lvl' = "lvl(p := Suc (lvl t))"
  have g: "getOrCreateTable d t i = Inr (p, ?d')"
    using k t i False ps tp by (rule getOrCreateTable_create)
  have new: "valid ?new" "etype ?new" "getAddress ?new = p"
    using getAddress_init_table [OF al small] by (simp_all add: initTableEntry_def)
  have ty': "typed ?lvl' ?h'"
    unfolding typed_def
  proof (intro allI impI, elim conjE)
    fix tt ess e
    assume tt: "?h' tt = Some ess" and ltt: "?lvl' tt < 3" and e: "e \<in> set ess" and v: "valid e"
    have old: "etype e \<and> ?lvl' (getAddress e) = Suc (?lvl' tt)
        \<and> (\<exists>es'. ?h' (getAddress e) = Some es' \<and> length es' = 2048)"
      if src: "tables k tt = Some ess0" "e \<in> set ess0" for ess0
    proof -
      have ttp: "tt \<noteq> p" using src(1) fresh by auto
      then have ltt0: "lvl tt < 3" using ltt by simp
      from typedD [OF ty src(1) ltt0 src(2) v]
      obtain es' where a: "etype e" "lvl (getAddress e) = Suc (lvl tt)"
        and b: "tables k (getAddress e) = Some es'" "length es' = 2048"
        by blast
      have gp: "getAddress e \<noteq> p" using b(1) fresh by auto
      have "\<exists>es''. ?h' (getAddress e) = Some es'' \<and> length es'' = 2048"
      proof (cases "getAddress e = t")
        case True
        with b t have "length es = 2048" by simp
        with True show ?thesis by simp
      next
        case False
        with gp b show ?thesis by simp
      qed
      with a gp ttp show ?thesis by simp
    qed
    show "etype e \<and> ?lvl' (getAddress e) = Suc (?lvl' tt)
        \<and> (\<exists>es'. ?h' (getAddress e) = Some es' \<and> length es' = 2048)"
    proof (cases "tt = t")
      case True
      with tt have ess: "ess = es[unat i := ?new]" by simp
      from e have "e = ?new \<or> e \<in> set es"
        unfolding ess using set_update_subset_insert [of es "unat i" ?new] by auto
      then show ?thesis
      proof
        assume "e = ?new"
        with new tp True show ?thesis by (simp add: unat_L1_ENTRIES)
      next
        assume "e \<in> set es"
        from old [OF _ this] t True show ?thesis by simp
      qed
    next
      case False
      show ?thesis
      proof (cases "tt = p")
        case True
        with tt tp have "ess = replicate (unat L1_ENTRIES) zeroEntry" by simp
        with e have "e = zeroEntry" by auto
        with v show ?thesis by (simp add: zeroEntry_def)
      next
        case ttp: False
        with False tt have "tables k tt = Some ess" by simp
        from old [OF this e] show ?thesis .
      qed
    qed
  qed
  have pool': "pool_ok n ?k'"
    unfolding pool_ok_def using rest tp t by auto
  have lv: "?lvl' p = Suc (lvl t)" by simp
  have keep: "\<forall>x. tables k x \<noteq> None \<longrightarrow> ?lvl' x = lvl x"
    using fresh by auto
  have child: "\<exists>esc. ?h' p = Some esc \<and> length esc = 2048"
    using tp by (simp add: unat_L1_ENTRIES)
  have parent: "\<exists>es'. ?h' t = Some es' \<and> length es' = length es \<and> valid (es' ! unat i)
            \<and> etype (es' ! unat i) \<and> getAddress (es' ! unat i) = p"
    using new i by simp
  have frame: "\<forall>x esx. tables k x = Some esx \<and> x \<noteq> t \<longrightarrow> ?h' x = Some esx"
    using fresh by auto
  have lens: "\<forall>x esx. tables k x = Some esx \<longrightarrow>
            (\<exists>esx'. ?h' x = Some esx' \<and> length esx' = length esx)"
    using fresh t by auto
  show ?thesis
    using g ty' pool' lv keep child parent frame lens
    by (intro exI [of _ p] exI [of _ ?d'] exI [of _ ?k'] exI [of _ ?lvl']) simp
qed


lemma readEntry_Some:
  "h t = Some es \<Longrightarrow> unat i < length es \<Longrightarrow> readEntry h t i = Inr (es ! unat i)"
  by (simp add: readEntry_def)

lemma reachedL3_path:
  assumes "readEntry h root (L0_INDEX (push_bit pageBits vp)) = Inr e0" "valid e0" "etype e0"
    and "readEntry h (getAddress e0) (L1_INDEX (push_bit pageBits vp)) = Inr e1" "valid e1" "etype e1"
    and "readEntry h (getAddress e1) (L2_INDEX (push_bit pageBits vp)) = Inr e2" "valid e2" "etype e2"
  shows "reachedL3 root h vp = Inr (Some (getAddress e2, L3_INDEX (push_bit pageBits vp)))"
  using assms by (simp add: reachedL3_def Let_def and_then_def)

lemma stampLeaf_valid:
  assumes "h t = Some es" "unat i < length es" "valid (es ! unat i)"
  shows "\<exists>h'. stampLeaf h w (Some (t, i)) = Inr (Some (ucast (physicalPageNum (es ! unat i))), h')"
  using assms by (simp add: stampLeaf_def readEntry_def writeEntry_def and_then_def)

lemma typed_leaf_write:
  assumes ty: "typed lvl h" and t: "h t = Some es" and l: "lvl t = 3"
  shows "typed lvl (h(t \<mapsto> es[i := e]))"
  unfolding typed_def
proof (intro allI impI, elim conjE)
  fix tt ess x
  assume tt: "(h(t \<mapsto> es[i := e])) tt = Some ess" and ltt: "lvl tt < 3"
    and x: "x \<in> set ess" and v: "valid x"
  from ltt l have ne: "tt \<noteq> t" by auto
  with tt have "h tt = Some ess" by simp
  from typedD [OF ty this ltt x v]
  obtain es' where a: "etype x" "lvl (getAddress x) = Suc (lvl tt)"
    and b: "h (getAddress x) = Some es'" "length es' = 2048"
    by blast
  have "\<exists>es''. (h(t \<mapsto> es[i := e])) (getAddress x) = Some es'' \<and> length es'' = 2048"
    using b t by (cases "getAddress x = t") auto
  with a show "etype x \<and> lvl (getAddress x) = Suc (lvl tt)
      \<and> (\<exists>es'. (h(t \<mapsto> es[i := e])) (getAddress x) = Some es' \<and> length es' = 2048)"
    by simp
qed

lemma setMapping_walk:
  assumes k: "kernel d = Some k" and pid: "pageTables d PID = Some root"
    and al: "root AND (pageTableAlign - 1) = 0"
    and ty: "typed lvl (tables k)" and l0: "lvl root = 0"
    and r: "tables k root = Some es0" and len0: "length es0 = 2"
    and pool: "pool_ok (Suc (Suc (Suc n))) k" and small: "addr pg < 2 ^ 48"
  shows "\<exists>d' pg' k' lvl'. setMapping d PID va pg = Inr (d', pg') \<and> kernel d' = Some k'
     \<and> pageTables d' = pageTables d
     \<and> typed lvl' (tables k') \<and> pool_ok n k'
     \<and> (\<forall>x. tables k x \<noteq> None \<longrightarrow> lvl' x = lvl x)
     \<and> (\<forall>x esx. tables k x = Some esx \<longrightarrow>
            (\<exists>esx'. tables k' x = Some esx' \<and> length esx' = length esx))
     \<and> (\<forall>w. \<exists>h'. performTranslation root (tables k')
                     (drop_bit pageBits (va AND (push_bit addressSpaceBits 1 - 1))) w
                   = Inr (Some (drop_bit pageBits (addr pg)), h'))"
proof -
  define v where "v = va AND (push_bit addressSpaceBits 1 - 1)"
  define leaf where "leaf = initTableEntry (addr pg) False"
  have i0: "unat (L0_INDEX v) < length es0" using L0_INDEX_less [of v] len0 by simp
  from getOrCreateTable_step [OF k ty r i0 _ pool] l0
  obtain t1 d1 k1 lvl1 es1 es0' where
    g1: "getOrCreateTable d root (L0_INDEX v) = Inr (t1, d1)" and k1: "kernel d1 = Some k1"
    and pt1: "pageTables d1 = pageTables d" and ty1: "typed lvl1 (tables k1)"
    and pool1: "pool_ok (Suc (Suc n)) k1" and lt1: "lvl1 t1 = 1"
    and keep1: "\<forall>x. tables k x \<noteq> None \<longrightarrow> lvl1 x = lvl x"
    and c1: "tables k1 t1 = Some es1" "length es1 = 2048"
    and par1: "tables k1 root = Some es0'" "valid (es0' ! unat (L0_INDEX v))"
      "etype (es0' ! unat (L0_INDEX v))" "getAddress (es0' ! unat (L0_INDEX v)) = t1"
      "length es0' = length es0"
    and len1: "\<forall>x esx. tables k x = Some esx \<longrightarrow>
            (\<exists>esx'. tables k1 x = Some esx' \<and> length esx' = length esx)"
    by auto
  have l1root: "lvl1 root = 0" using keep1 r l0 by simp
  have i1: "unat (L1_INDEX v) < length es1" using L1_INDEX_less [of v] c1 by simp
  from getOrCreateTable_step [OF k1 ty1 c1(1) i1 _ pool1] lt1
  obtain t2 d2 k2 lvl2 es2 es1' where
    g2: "getOrCreateTable d1 t1 (L1_INDEX v) = Inr (t2, d2)" and k2: "kernel d2 = Some k2"
    and pt2: "pageTables d2 = pageTables d1" and ty2: "typed lvl2 (tables k2)"
    and pool2: "pool_ok (Suc n) k2" and lt2: "lvl2 t2 = 2"
    and keep2: "\<forall>x. tables k1 x \<noteq> None \<longrightarrow> lvl2 x = lvl1 x"
    and c2: "tables k2 t2 = Some es2" "length es2 = 2048"
    and par2: "tables k2 t1 = Some es1'" "valid (es1' ! unat (L1_INDEX v))"
      "etype (es1' ! unat (L1_INDEX v))" "getAddress (es1' ! unat (L1_INDEX v)) = t2"
      "length es1' = length es1"
    and fr2: "\<forall>x esx. tables k1 x = Some esx \<and> x \<noteq> t1 \<longrightarrow> tables k2 x = Some esx"
    and len2: "\<forall>x esx. tables k1 x = Some esx \<longrightarrow>
            (\<exists>esx'. tables k2 x = Some esx' \<and> length esx' = length esx)"
    by auto
  have rt1: "root \<noteq> t1" using l1root lt1 by auto
  have root2: "tables k2 root = Some es0'" using fr2 par1(1) rt1 by simp
  have l2root: "lvl2 root = 0" and l2t1: "lvl2 t1 = 1"
    using keep2 par1(1) c1(1) l1root lt1 by simp_all
  have i2: "unat (L2_INDEX v) < length es2" using L2_INDEX_less [of v] c2 by simp
  from getOrCreateTable_step [OF k2 ty2 c2(1) i2 _ pool2] lt2
  obtain t3 d3 k3 lvl3 es3 es2' where
    g3: "getOrCreateTable d2 t2 (L2_INDEX v) = Inr (t3, d3)" and k3: "kernel d3 = Some k3"
    and pt3: "pageTables d3 = pageTables d2" and ty3: "typed lvl3 (tables k3)"
    and pool3: "pool_ok n k3" and lt3: "lvl3 t3 = 3"
    and keep3: "\<forall>x. tables k2 x \<noteq> None \<longrightarrow> lvl3 x = lvl2 x"
    and c3: "tables k3 t3 = Some es3" "length es3 = 2048"
    and par3: "tables k3 t2 = Some es2'" "valid (es2' ! unat (L2_INDEX v))"
      "etype (es2' ! unat (L2_INDEX v))" "getAddress (es2' ! unat (L2_INDEX v)) = t3"
      "length es2' = length es2"
    and fr3: "\<forall>x esx. tables k2 x = Some esx \<and> x \<noteq> t2 \<longrightarrow> tables k3 x = Some esx"
    and len3: "\<forall>x esx. tables k2 x = Some esx \<longrightarrow>
            (\<exists>esx'. tables k3 x = Some esx' \<and> length esx' = length esx)"
    by auto
  have ne2: "root \<noteq> t2" "t1 \<noteq> t2" using l2root l2t1 lt2 by auto
  have root3: "tables k3 root = Some es0'" and t13: "tables k3 t1 = Some es1'"
    using fr3 root2 par2(1) ne2 by simp_all
  have l3: "lvl3 root = 0" "lvl3 t1 = 1" "lvl3 t2 = 2"
    using keep3 root2 par2(1) c2(1) l2root l2t1 lt2 by simp_all
  have ne3: "root \<noteq> t3" "t1 \<noteq> t3" "t2 \<noteq> t3" using l3 lt3 by auto
  have i3: "unat (L3_INDEX v) < length es3" using L3_INDEX_less [of v] c3 by simp
  let ?h4 = "(tables k3)(t3 \<mapsto> es3[unat (L3_INDEX v) := leaf])"
  let ?k4 = "k3\<lparr>tables := ?h4\<rparr>"
  let ?d4 = "d3\<lparr>kernel := Some ?k4\<rparr>"
  have w: "driverWrite d3 t3 (L3_INDEX v) leaf = Inr ?d4"
    using k3 c3 i3 by (simp add: driverWrite_def writeEntry_def and_then_def)
  have sm: "setMapping d PID va pg = Inr (?d4, pg\<lparr>driverData := Some (t3, L3_INDEX v)\<rparr>)"
    unfolding setMapping_Inr using pid g1 g2 g3 w unfolding v_def leaf_def by blast
  have ty4: "typed lvl3 ?h4"
    using ty3 c3(1) lt3 by (rule typed_leaf_write)
  have pool4: "pool_ok n ?k4"
    using pool3 c3(1) unfolding pool_ok_def by auto
  have keep4: "\<forall>x. tables k x \<noteq> None \<longrightarrow> lvl3 x = lvl x"
  proof (intro allI impI)
    fix x assume x: "tables k x \<noteq> None"
    then obtain a where a: "tables k x = Some a" by auto
    from len1 a obtain b where b: "tables k1 x = Some b" by blast
    from len2 b obtain c where c: "tables k2 x = Some c" by blast
    from keep1 x keep2 b keep3 c show "lvl3 x = lvl x" by simp
  qed
  have len4: "\<forall>x esx. tables k x = Some esx \<longrightarrow>
            (\<exists>esx'. ?h4 x = Some esx' \<and> length esx' = length esx)"
  proof (intro allI impI)
    fix x esx assume a: "tables k x = Some esx"
    from len1 a obtain b where b: "tables k1 x = Some b" "length b = length esx" by blast
    from len2 b obtain c where c: "tables k2 x = Some c" "length c = length esx" by force
    from len3 c obtain e where e: "tables k3 x = Some e" "length e = length esx" by force
    show "\<exists>esx'. ?h4 x = Some esx' \<and> length esx' = length esx"
      using e c3 by (cases "x = t3") auto
  qed
  have e0: "readEntry ?h4 root (L0_INDEX v) = Inr (es0' ! unat (L0_INDEX v))"
    using root3 ne3 i0 par1(5) by (simp add: readEntry_def)
  have e1: "readEntry ?h4 t1 (L1_INDEX v) = Inr (es1' ! unat (L1_INDEX v))"
    using t13 ne3 i1 par2(5) by (simp add: readEntry_def)
  have e2: "readEntry ?h4 t2 (L2_INDEX v) = Inr (es2' ! unat (L2_INDEX v))"
    using par3 ne3 i2 by (simp add: readEntry_def)
  let ?vp = "drop_bit pageBits v"
  have reach: "reachedL3 root ?h4 ?vp = Inr (Some (t3, L3_INDEX v))"
    using reachedL3_path [of ?h4 root ?vp "es0' ! unat (L0_INDEX v)" "es1' ! unat (L1_INDEX v)"
        "es2' ! unat (L2_INDEX v)"]
      e0 e1 e2 par1 par2 par3
    by (simp add: index_of_page)
  have lf: "?h4 t3 = Some (es3[unat (L3_INDEX v) := leaf])"
    "unat (L3_INDEX v) < length (es3[unat (L3_INDEX v) := leaf])"
    "valid ((es3[unat (L3_INDEX v) := leaf]) ! unat (L3_INDEX v))"
    "(es3[unat (L3_INDEX v) := leaf]) ! unat (L3_INDEX v) = leaf"
    using i3 by (simp_all add: leaf_def initTableEntry_def)
  have page: "(ucast (physicalPageNum leaf) :: u64) = drop_bit pageBits (addr pg)"
    unfolding leaf_def using small by (rule leaf_page_roundtrip)
  have walk: "\<exists>h'. performTranslation root ?h4 ?vp w = Inr (Some (drop_bit pageBits (addr pg)), h')"
    for w
    using stampLeaf_valid [of ?h4 t3 "es3[unat (L3_INDEX v) := leaf]" "L3_INDEX v" w] lf page
    by (simp add: performTranslation_reached [OF al] reach and_then_def)
  have pts: "pageTables ?d4 = pageTables d" using pt1 pt2 pt3 by simp
  show ?thesis
    using sm pts ty4 pool4 keep4 len4 walk unfolding v_def
    by (intro exI [of _ ?d4] exI [of _ "pg\<lparr>driverData := Some (t3, L3_INDEX v)\<rparr>"]
        exI [of _ ?k4] exI [of _ lvl3]) (simp add: v_def)
qed

lemma driver_inv_boot: "driver_inv (bootDriver ps)"
  unfolding driver_inv_def bootDriver_def setHostKernel_def newDriver_def typed_def
  by simp

lemma driver_inv_allocatePageTable:
  assumes inv: "driver_inv d" and k: "kernel d = Some k" and pool: "pool_ok (Suc n) k"
  shows "\<exists>d' k' p. allocatePageTable d PID = Inr d' \<and> kernel d' = Some k' \<and> driver_inv d'
     \<and> pageTables d' = (pageTables d)(PID \<mapsto> p) \<and> pool k = p # pool k' \<and> pool_ok n k'"
proof -
  from pool obtain p ps where ps: "pool k = p # ps" and fresh: "tables k p = None"
    and al: "p AND (pageTableAlign - 1) = 0" and small: "p < 2 ^ 48"
    and rest: "p \<notin> set (take n ps)" "distinct (take n ps)" "n \<le> length ps"
      "\<forall>q \<in> set (take n ps). tables k q = None \<and> q AND (pageTableAlign - 1) = 0 \<and> q < 2 ^ 48"
    by (rule pool_ok_hd)
  from inv k obtain lvl where ty: "typed lvl (tables k)"
    and roots: "\<forall>PID root. pageTables d PID = Some root \<longrightarrow>
              root AND (pageTableAlign - 1) = 0 \<and> lvl root = 0
              \<and> (\<exists>es. tables k root = Some es \<and> length es = 2)"
    unfolding driver_inv_def by auto
  let ?h' = "(tables k)(p \<mapsto> replicate 2 zeroEntry)"
  let ?k' = "k\<lparr>pool := ps, tables := ?h'\<rparr>"
  let ?d' = "d\<lparr>bytesAllocated := bytesAllocated d + 16, kernel := Some ?k',
               pageTables := (pageTables d)(PID \<mapsto> p)\<rparr>"
  let ?lvl' = "lvl(p := 0)"
  have a: "allocatePageTable d PID = Inr ?d'"
    using k ps by (simp add: allocatePageTable_Inr)
  have ty': "typed ?lvl' ?h'"
    unfolding typed_def
  proof (intro allI impI, elim conjE)
    fix tt ess e
    assume tt: "?h' tt = Some ess" and ltt: "?lvl' tt < 3" and e: "e \<in> set ess" and v: "valid e"
    show "etype e \<and> ?lvl' (getAddress e) = Suc (?lvl' tt)
        \<and> (\<exists>es'. ?h' (getAddress e) = Some es' \<and> length es' = 2048)"
    proof (cases "tt = p")
      case True
      with tt e have "e = zeroEntry" by auto
      with v show ?thesis by (simp add: zeroEntry_def)
    next
      case False
      with tt ltt have src: "tables k tt = Some ess" "lvl tt < 3" by simp_all
      from typedD [OF ty src e v]
      obtain es' where b: "etype e" "lvl (getAddress e) = Suc (lvl tt)"
        "tables k (getAddress e) = Some es'" "length es' = 2048"
        by blast
      then have "getAddress e \<noteq> p" using fresh by auto
      with b False show ?thesis by simp
    qed
  qed
  have roots': "\<forall>P root. pageTables ?d' P = Some root \<longrightarrow>
              root AND (pageTableAlign - 1) = 0 \<and> ?lvl' root = 0
              \<and> (\<exists>es. ?h' root = Some es \<and> length es = 2)"
    using roots al by auto
  have inv': "driver_inv ?d'"
    unfolding driver_inv_def using ty' roots'
    by (intro exI [of _ ?k'] exI [of _ ?lvl']) simp
  have pool': "pool_ok n ?k'"
    unfolding pool_ok_def using rest by auto
  show ?thesis
    using a inv' ps pool'
    by (intro exI [of _ ?d'] exI [of _ ?k'] exI [of _ p]) simp
qed

text \<open>
  C5 (round trip through driver and walker).  In a well-formed driver state, for a
  process \<open>PID\<close> with a page table rooted at \<open>root\<close>, a kernel whose next three
  addresses are fresh and aligned, a handle with a 48-bit physical address and any
  64-bit virtual address \<open>va\<close> (masked to 48 bits by the driver):
  \<^verbatim>\<open>setMapping(PID, va, handle)\<close> returns normally, leaves the root of \<open>PID\<close> in
  place and the state well formed, and the walk of the virtual page of \<open>va\<close> from
  that root, for a read as for a write, succeeds with the physical page
  \<open>handle.addr >> pageBits\<close>.
\<close>

theorem setMapping_roundtrip:
  assumes "driver_inv d" and "kernel d = Some k" and "pool_ok 3 k"
    and "pageTables d PID = Some root" and "addr pg < 2 ^ 48"
  shows "\<exists>d' pg' k'. setMapping d PID va pg = Inr (d', pg') \<and> kernel d' = Some k'
     \<and> pageTables d' PID = Some root \<and> driver_inv d'
     \<and> (\<forall>w. \<exists>h'. performTranslation root (tables k')
                     (drop_bit pageBits (va AND (push_bit addressSpaceBits 1 - 1))) w
                   = Inr (Some (drop_bit pageBits (addr pg)), h'))"
proof -
  from assms(1,2) obtain lvl where ty: "typed lvl (tables k)"
    and roots: "\<forall>P r. pageTables d P = Some r \<longrightarrow>
              r AND (pageTableAlign - 1) = 0 \<and> lvl r = 0
              \<and> (\<exists>es. tables k r = Some es \<and> length es = 2)"
    unfolding driver_inv_def by auto
  from roots assms(4) obtain es0 where al: "root AND (pageTableAlign - 1) = 0"
    and l0: "lvl root = 0" and r: "tables k root = Some es0" and len0: "length es0 = 2"
    by blast
  have pool: "pool_ok (Suc (Suc (Suc 0))) k" using assms(3) by (simp add: numeral_3_eq_3)
  from setMapping_walk [OF assms(2) assms(4) al ty l0 r len0 pool assms(5), of va]
  obtain d' pg' k' lvl' where sm: "setMapping d PID va pg = Inr (d', pg')"
    and k': "kernel d' = Some k'" and pts: "pageTables d' = pageTables d"
    and ty': "typed lvl' (tables k')"
    and keep: "\<forall>x. tables k x \<noteq> None \<longrightarrow> lvl' x = lvl x"
    and lens: "\<forall>x esx. tables k x = Some esx \<longrightarrow>
            (\<exists>esx'. tables k' x = Some esx' \<and> length esx' = length esx)"
    and walk: "\<forall>w. \<exists>h'. performTranslation root (tables k')
                     (drop_bit pageBits (va AND (push_bit addressSpaceBits 1 - 1))) w
                   = Inr (Some (drop_bit pageBits (addr pg)), h')"
    by blast
  have roots': "\<forall>P r. pageTables d' P = Some r \<longrightarrow>
              r AND (pageTableAlign - 1) = 0 \<and> lvl' r = 0
              \<and> (\<exists>es. tables k' r = Some es \<and> length es = 2)"
  proof (intro allI impI)
    fix P r' assume "pageTables d' P = Some r'"
    with pts roots obtain es where a: "r' AND (pageTableAlign - 1) = 0" "lvl r' = 0"
      "tables k r' = Some es" "length es = 2"
      by force
    from lens a(3) obtain es' where "tables k' r' = Some es'" "length es' = length es"
      by blast
    with a keep show "r' AND (pageTableAlign - 1) = 0 \<and> lvl' r' = 0
              \<and> (\<exists>es. tables k' r' = Some es \<and> length es = 2)"
      by simp
  qed
  have inv': "driver_inv d'"
    unfolding driver_inv_def using k' ty' roots' by blast
  from sm k' pts assms(4) inv' walk show ?thesis by auto
qed

theorem setMapping_roundtrip_witness:
  "\<exists>d1 k1. allocatePageTable (bootDriver [0x10000, 0x14000, 0x18000, 0x1C000]) 1 = Inr d1
     \<and> driver_inv d1 \<and> kernel d1 = Some k1 \<and> pool_ok 3 k1
     \<and> pageTables d1 1 = Some 0x10000
     \<and> addr \<lparr>addr = 0x2AF378000, driverData = None\<rparr> < 2 ^ 48
     \<and> (\<exists>d' pg' k'. setMapping d1 1 0x48D14ABC \<lparr>addr = 0x2AF378000, driverData = None\<rparr>
                        = Inr (d', pg')
           \<and> kernel d' = Some k' \<and> pageTables d' 1 = Some 0x10000 \<and> driver_inv d'
           \<and> (\<forall>w. \<exists>h'. performTranslation 0x10000 (tables k') 0x12345 w
                         = Inr (Some 0xABCDE, h')))"
proof -
  let ?d0 = "bootDriver [0x10000, 0x14000, 0x18000, 0x1C000]"
  let ?k0 = "\<lparr>tables = Map.empty, pool = [0x10000, 0x14000, 0x18000, 0x1C000 :: u64]\<rparr>"
  let ?pg = "\<lparr>addr = 0x2AF378000, driverData = None\<rparr>"
  have k0: "kernel ?d0 = Some ?k0"
    by (simp add: bootDriver_def setHostKernel_def newDriver_def)
  have pool0: "pool_ok (Suc 3) ?k0"
    by (simp add: pool_ok_def pt_defs)
  from driver_inv_allocatePageTable [OF driver_inv_boot k0 pool0, of 1]
  obtain d1 k1 p where a: "allocatePageTable ?d0 1 = Inr d1" and k1: "kernel d1 = Some k1"
    and inv1: "driver_inv d1" and pts: "pageTables d1 = (pageTables ?d0)(1 \<mapsto> p)"
    and p: "pool ?k0 = p # pool k1" and pool1: "pool_ok 3 k1"
    by blast
  from p have p': "p = 0x10000" by simp
  with pts have root: "pageTables d1 1 = Some 0x10000" by simp
  have small: "addr ?pg < 2 ^ 48" by simp
  have vp: "drop_bit pageBits ((0x48D14ABC :: u64) AND (push_bit addressSpaceBits 1 - 1)) = 0x12345"
    by (simp add: pt_defs)
  have pp: "drop_bit pageBits (addr ?pg) = 0xABCDE"
    by (simp add: pt_defs)
  from setMapping_roundtrip [OF inv1 k1 pool1 root small, of "0x48D14ABC"]
  have "\<exists>d' pg' k'. setMapping d1 1 0x48D14ABC ?pg = Inr (d', pg')
           \<and> kernel d' = Some k' \<and> pageTables d' 1 = Some 0x10000 \<and> driver_inv d'
           \<and> (\<forall>w. \<exists>h'. performTranslation 0x10000 (tables k') 0x12345 w
                         = Inr (Some 0xABCDE, h'))"
    unfolding vp pp .
  with a inv1 k1 pool1 root small show ?thesis by blast
qed

section \<open>Running out of memory\<close>


lemma findFit_Some:
  "findFit hs c = Some i \<Longrightarrow> i < length hs \<and> c \<le> count (hs ! i) \<and> (\<forall>j<i. count (hs ! j) < c)"
proof (induction hs arbitrary: i)
  case Nil
  then show ?case by simp
next
  case (Cons h hs)
  show ?case
  proof (cases "c \<le> count h")
    case True
    with Cons.prems show ?thesis by simp
  next
    case False
    with Cons.prems obtain i' where i': "findFit hs c = Some i'" "i = Suc i'"
      by auto
    from Cons.IH [OF i'(1)] False i'(2) show ?thesis
      by (auto simp: nth_Cons' not_le less_Suc_eq_0_disj)
  qed
qed












declare firstFit.simps [simp del] testRun.simps [simp del]














end
